theory Spec2Isabelle
  imports Complex_Main "HOL-Library.Multiset"
begin

section \<open>Python values, strings and slices\<close>

text \<open>
  The retrieval pipeline of the repository (\<^verbatim>\<open>src/rag/*.py\<close> and
  \<^verbatim>\<open>src/core/supabase_vector_store.py\<close>) is embedded function by function.
  Python floats are idealised as \<^typ>\<open>real\<close>: rounding is not modelled. Python
  strings are lists of \<^typ>\<open>char\<close>, read as ASCII text. Exceptions are values of
  \<open>exn\<close>, and a function that can raise returns \<open>exn + 'a\<close>.
\<close>

datatype exn = TypeError | ZeroDivisionError | KeyError | ExternalError

datatype pyval = PNone | PBool bool | PInt int | PFloat real | PStr string

type_synonym meta = "string \<rightharpoonup> pyval"

text \<open>\<^verbatim>\<open>str.isspace\<close> on ASCII: tab, LF, VT, FF, CR, the separators 0x1c-0x1f, space.\<close>

definition is_space :: "char \<Rightarrow> bool" where
  "is_space c = (let n = (of_char c :: nat) in (9 \<le> n \<and> n \<le> 13) \<or> (28 \<le> n \<and> n \<le> 32))"

text \<open>\<^verbatim>\<open>s.split()\<close>: maximal runs of non-whitespace; \<open>cur\<close> is the current word, reversed.\<close>

fun split_acc :: "string \<Rightarrow> string \<Rightarrow> string list" where
  "split_acc cur [] = (if cur = [] then [] else [rev cur])"
| "split_acc cur (c # cs) =
     (if is_space c
      then (if cur = [] then split_acc [] cs else rev cur # split_acc [] cs)
      else split_acc (c # cur) cs)"

definition py_split :: "string \<Rightarrow> string list" where
  "py_split s = split_acc [] s"

text \<open>\<^verbatim>\<open>s.lower()\<close> on ASCII letters.\<close>

definition lower_char :: "char \<Rightarrow> char" where
  "lower_char c = (let n = (of_char c :: nat) in if 65 \<le> n \<and> n \<le> 90 then char_of (n + 32) else c)"

definition py_lower :: "string \<Rightarrow> string" where
  "py_lower s = map lower_char s"

text \<open>\<^verbatim>\<open>s.strip()\<close>.\<close>

definition py_strip :: "string \<Rightarrow> string" where
  "py_strip s = rev (dropWhile is_space (rev (dropWhile is_space s)))"

text \<open>\<^verbatim>\<open>term in text\<close> for strings.\<close>

fun starts_with :: "string \<Rightarrow> string \<Rightarrow> bool" where
  "starts_with [] text = True"
| "starts_with (t # ts) [] = False"
| "starts_with (t # ts) (c # cs) = (t = c \<and> starts_with ts cs)"

fun str_contains :: "string \<Rightarrow> string \<Rightarrow> bool" where
  "str_contains t [] = (t = [])"
| "str_contains t (c # cs) = (starts_with t (c # cs) \<or> str_contains t cs)"

text \<open>\<^verbatim>\<open>xs[:n]\<close>: a negative \<open>n\<close> counts from the end.\<close>

definition py_take :: "int \<Rightarrow> 'a list \<Rightarrow> 'a list" where
  "py_take n xs = (if 0 \<le> n then take (nat n) xs else take (length xs - nat (- n)) xs)"

text \<open>\<^verbatim>\<open>a / b\<close> on numbers: raises on a zero divisor.\<close>

definition py_truediv :: "real \<Rightarrow> real \<Rightarrow> exn + real" where
  "py_truediv a b = (if b = 0 then Inl ZeroDivisionError else Inr (a / b))"

text \<open>\<^verbatim>\<open>v >= t\<close> for a metadata value \<open>v\<close> and a float \<open>t\<close>: numbers (and booleans,
  which are integers) compare, anything else raises \<^verbatim>\<open>TypeError\<close>.\<close>

fun py_ge_float :: "pyval \<Rightarrow> real \<Rightarrow> exn + bool" where
  "py_ge_float (PFloat x) t = Inr (x \<ge> t)"
| "py_ge_float (PInt i) t = Inr (real_of_int i \<ge> t)"
| "py_ge_float (PBool b) t = Inr ((if b then 1 else 0) \<ge> t)"
| "py_ge_float PNone t = Inl TypeError"
| "py_ge_float (PStr s) t = Inl TypeError"

section \<open>Settings and the retriever's feature flags\<close>

text \<open>The fields of \<^verbatim>\<open>config.settings.Settings\<close> that the pipeline reads.\<close>

record settings =
  top_k_retrieval :: int
  top_k_final :: int
  similarity_threshold :: real

text \<open>The flags \<^verbatim>\<open>AdvancedRAGRetriever.__init__\<close> stores on \<^verbatim>\<open>self\<close>.\<close>

record flags =
  enable_hyde :: bool
  enable_reranking :: bool
  enable_hybrid :: bool

section \<open>Strategy selection\<close>

text \<open>\<^verbatim>\<open>AdvancedRAGRetriever._select_strategy\<close>.\<close>

definition select_strategy :: "flags \<Rightarrow> string \<Rightarrow> string" where
  "select_strategy fl query =
     (let query_length = length (py_split query) in
      if query_length < 5 then ''simple''
      else if query_length < 15 \<and> enable_hybrid fl then ''hybrid''
      else if enable_hyde fl then ''advanced''
      else if enable_hybrid fl then ''hybrid'' else ''simple'')"

section \<open>Keyword scoring\<close>

text \<open>\<^verbatim>\<open>SupabaseVectorStoreWrapper._simple_keyword_score\<close>.\<close>

definition simple_keyword_score :: "string \<Rightarrow> string \<Rightarrow> exn + real" where
  "simple_keyword_score query text =
     (let query_terms = py_split (py_lower query);
          text_lower = py_lower text;
          matches = length (filter (\<lambda>term. str_contains term text_lower) query_terms)
      in if query_terms \<noteq> [] then py_truediv (real matches) (real (length query_terms))
         else Inr 0)"

section \<open>Documents\<close>

text \<open>
  A LangChain \<^verbatim>\<open>Document\<close>. \<open>content_id\<close> is the value of
  \<^verbatim>\<open>id(doc.page_content)\<close>, the address of the string object that holds the content:
  two documents built from separate query results hold equal contents at different
  addresses, and a copy made with \<^verbatim>\<open>Document(page_content=doc.page_content, ...)\<close>
  shares the address.
\<close>

record document =
  page_content :: string
  content_id :: nat
  metadata :: meta

text \<open>The builtins \<^verbatim>\<open>hash\<close> (on strings) and \<^verbatim>\<open>str\<close>, left as parameters.\<close>

record builtins =
  hash_str :: "string \<Rightarrow> int"
  str_of :: "pyval \<Rightarrow> string"

section \<open>Reciprocal rank fusion\<close>

text \<open>\<^verbatim>\<open>ReciprocalRankFusion._get_doc_id\<close>.\<close>

definition get_doc_id :: "builtins \<Rightarrow> document \<Rightarrow> string" where
  "get_doc_id py doc =
     (case metadata doc ''id'' of
        Some v \<Rightarrow> str_of py v
      | None \<Rightarrow> str_of py (PInt (hash_str py (page_content doc))))"

text \<open>
  \<^verbatim>\<open>doc_scores[doc_id] += rrf_score\<close> on a \<^verbatim>\<open>defaultdict(float)\<close>. The dictionary is
  an association list in insertion order, which is the order \<^verbatim>\<open>items()\<close> yields.
\<close>

fun add_score :: "string \<Rightarrow> real \<Rightarrow> (string \<times> real) list \<Rightarrow> (string \<times> real) list" where
  "add_score i s [] = [(i, 0 + s)]"
| "add_score i s ((j, t) # rest) =
     (if j = i then (j, t + s) # rest else (j, t) # add_score i s rest)"

text \<open>\<^verbatim>\<open>if doc_id not in doc_objects: doc_objects[doc_id] = doc\<close>.\<close>

definition keep_first :: "string \<Rightarrow> document \<Rightarrow> (string \<rightharpoonup> document) \<Rightarrow> (string \<rightharpoonup> document)" where
  "keep_first i doc objs = (if i \<in> dom objs then objs else objs(i \<mapsto> doc))"

text \<open>The inner loop of \<^verbatim>\<open>fuse\<close> over \<^verbatim>\<open>enumerate(ranked_list, start=1)\<close>.\<close>

fun fuse_list ::
  "builtins \<Rightarrow> int \<Rightarrow> real \<Rightarrow> nat \<Rightarrow> document list \<Rightarrow>
   (string \<times> real) list \<times> (string \<rightharpoonup> document) \<Rightarrow>
   exn + (string \<times> real) list \<times> (string \<rightharpoonup> document)" where
  "fuse_list py k weight rank [] st = Inr st"
| "fuse_list py k weight rank (doc # docs) (doc_scores, doc_objects) =
     (let doc_id = get_doc_id py doc in
      case py_truediv weight (real_of_int (k + int rank)) of
        Inl e \<Rightarrow> Inl e
      | Inr rrf_score \<Rightarrow>
          fuse_list py k weight (Suc rank) docs
            (add_score doc_id rrf_score doc_scores, keep_first doc_id doc doc_objects))"

text \<open>The outer loop over \<^verbatim>\<open>zip(weights, ranked_lists)\<close>.\<close>

fun fuse_lists ::
  "builtins \<Rightarrow> int \<Rightarrow> (real \<times> document list) list \<Rightarrow>
   (string \<times> real) list \<times> (string \<rightharpoonup> document) \<Rightarrow>
   exn + (string \<times> real) list \<times> (string \<rightharpoonup> document)" where
  "fuse_lists py k [] st = Inr st"
| "fuse_lists py k ((weight, ranked_list) # rest) st =
     (case fuse_list py k weight 1 ranked_list st of
        Inl e \<Rightarrow> Inl e
      | Inr st' \<Rightarrow> fuse_lists py k rest st')"

text \<open>The copy with \<^verbatim>\<open>{**doc.metadata, "rrf_score": score}\<close>.\<close>

definition rrf_copy :: "document \<Rightarrow> real \<Rightarrow> document" where
  "rrf_copy doc score =
     \<lparr>page_content = page_content doc, content_id = content_id doc,
      metadata = (metadata doc)(''rrf_score'' \<mapsto> PFloat score)\<rparr>"

text \<open>The final loop; \<^verbatim>\<open>doc_objects[doc_id]\<close> raises \<^verbatim>\<open>KeyError\<close> on a missing key.\<close>

fun fused_docs :: "(string \<rightharpoonup> document) \<Rightarrow> (string \<times> real) list \<Rightarrow> exn + document list" where
  "fused_docs doc_objects [] = Inr []"
| "fused_docs doc_objects ((doc_id, score) # rest) =
     (case doc_objects doc_id of
        None \<Rightarrow> Inl KeyError
      | Some doc \<Rightarrow>
          (case fused_docs doc_objects rest of
             Inl e \<Rightarrow> Inl e
           | Inr fused \<Rightarrow> Inr (rrf_copy doc score # fused)))"

text \<open>\<^verbatim>\<open>sorted(items, key=lambda x: x[1], reverse=True)\<close>: stable, descending.\<close>

definition sorted_desc :: "('a \<times> real) list \<Rightarrow> ('a \<times> real) list" where
  "sorted_desc items = sort_key (\<lambda>x. - snd x) items"

text \<open>The weights the loop uses: all 1.0 when none are given.\<close>

definition weighted_lists :: "document list list \<Rightarrow> real list option \<Rightarrow> (real \<times> document list) list" where
  "weighted_lists ranked_lists weights =
     zip (case weights of None \<Rightarrow> replicate (length ranked_lists) 1 | Some ws \<Rightarrow> ws)
         ranked_lists"

text \<open>\<^verbatim>\<open>ReciprocalRankFusion.fuse\<close>, with \<open>k\<close> the constant \<^verbatim>\<open>self.k\<close>.\<close>

definition fuse :: "builtins \<Rightarrow> int \<Rightarrow> document list list \<Rightarrow> real list option \<Rightarrow> exn + document list" where
  "fuse py k ranked_lists weights =
     (if ranked_lists = [] then Inr []
      else case fuse_lists py k (weighted_lists ranked_lists weights) ([], Map.empty) of
             Inl e \<Rightarrow> Inl e
           | Inr (doc_scores, doc_objects) \<Rightarrow> fused_docs doc_objects (sorted_desc doc_scores))"

subsection \<open>The fusion formula of the specification\<close>

text \<open>
  Every occurrence of a passage at 1-based rank \<open>r\<close> of a list with weight \<open>w\<close> contributes
  \<open>w / (k + r)\<close> to the identity of that passage; the contributions are listed in the order
  the lists are scanned.
\<close>

definition contributions :: "builtins \<Rightarrow> int \<Rightarrow> (real \<times> document list) list \<Rightarrow> (string \<times> real) list" where
  "contributions py k wls =
     concat (map (\<lambda>(w, l). map (\<lambda>(r, d). (get_doc_id py d, w / real_of_int (k + int r)))
                               (List.enumerate 1 l)) wls)"

text \<open>The fused score of an identity: the sum of its contributions.\<close>

definition rrf_total :: "builtins \<Rightarrow> int \<Rightarrow> (real \<times> document list) list \<Rightarrow> string \<Rightarrow> real" where
  "rrf_total py k wls i = sum_list (map snd (filter (\<lambda>c. fst c = i) (contributions py k wls)))"

text \<open>The distinct elements of a list in the order of their first occurrence.\<close>

definition first_seen :: "'a list \<Rightarrow> 'a list" where
  "first_seen xs = rev (remdups (rev xs))"

text \<open>All passages of the scanned lists, in scan order.\<close>

definition scanned :: "(real \<times> document list) list \<Rightarrow> document list" where
  "scanned wls = concat (map snd wls)"

text \<open>The running score table after a list of contributions has been added, one by one.\<close>

definition add_all :: "(string \<times> real) list \<Rightarrow> (string \<times> real) list \<Rightarrow> (string \<times> real) list" where
  "add_all cs sc = fold (\<lambda>c. add_score (fst c) (snd c)) cs sc"

text \<open>The running object table after the passages of a list have been seen, one by one.\<close>

definition keep_all :: "builtins \<Rightarrow> document list \<Rightarrow> (string \<rightharpoonup> document) \<Rightarrow> (string \<rightharpoonup> document)" where
  "keep_all py ds objs = fold (\<lambda>d. keep_first (get_doc_id py d) d) ds objs"

text \<open>The contributions of one ranked list whose first passage has rank \<open>rank\<close>.\<close>

definition list_contribs :: "builtins \<Rightarrow> int \<Rightarrow> real \<Rightarrow> nat \<Rightarrow> document list \<Rightarrow> (string \<times> real) list" where
  "list_contribs py k w rank l =
     map (\<lambda>(r, d). (get_doc_id py d, w / real_of_int (k + int r))) (List.enumerate rank l)"

text \<open>The fused score a passage carries in its metadata, if any.\<close>

definition rrf_score_of :: "document \<Rightarrow> real option" where
  "rrf_score_of d = (case metadata d ''rrf_score'' of Some (PFloat s) \<Rightarrow> Some s | _ \<Rightarrow> None)"

text \<open>The first passage of the scanned lists that has a given identity.\<close>

definition first_doc :: "builtins \<Rightarrow> (real \<times> document list) list \<Rightarrow> string \<Rightarrow> document option" where
  "first_doc py wls i = find (\<lambda>d. get_doc_id py d = i) (scanned wls)"

text \<open>The score table of the specification: the identities in first-seen order, each with its fused score.\<close>

definition fused_items :: "builtins \<Rightarrow> int \<Rightarrow> (real \<times> document list) list \<Rightarrow> (string \<times> real) list" where
  "fused_items py k wls =
     map (\<lambda>i. (i, rrf_total py k wls i)) (first_seen (map (get_doc_id py) (scanned wls)))"

text \<open>The output passage for an entry of the score table.\<close>

definition fused_out :: "builtins \<Rightarrow> (real \<times> document list) list \<Rightarrow> string \<times> real \<Rightarrow> document" where
  "fused_out py wls x = rrf_copy (the (first_doc py wls (fst x))) (snd x)"

text \<open>
  The identity of a passage as the specification words it: the identifier the store
  provides, falling back to a hash of the content.
\<close>

definition passage_identity :: "builtins \<Rightarrow> document \<Rightarrow> string" where
  "passage_identity py d =
     (if ''id'' \<in> dom (metadata d) then str_of py (the (metadata d ''id''))
      else str_of py (PInt (hash_str py (page_content d))))"

text \<open>
  What one ranked list of weight \<open>w\<close>, whose first passage has rank \<open>r\<close>, contributes to
  the identity \<open>i\<close>: \<open>w / (k + rank)\<close> for each of its passages of that identity.
\<close>

fun list_score :: "builtins \<Rightarrow> int \<Rightarrow> real \<Rightarrow> nat \<Rightarrow> document list \<Rightarrow> string \<Rightarrow> real" where
  "list_score py k w r [] i = 0"
| "list_score py k w r (d # l) i =
     (if passage_identity py d = i then w / real_of_int (k + int r) else 0)
     + list_score py k w (Suc r) l i"

text \<open>
  The fused score of the identity \<open>i\<close> for the weights \<open>ws\<close>, one per list: the contributions
  of all lists, summed, with ranks counted from 1.
\<close>

fun spec_score :: "builtins \<Rightarrow> int \<Rightarrow> real list \<Rightarrow> document list list \<Rightarrow> string \<Rightarrow> real" where
  "spec_score py k (w # ws) (l # ls) i = list_score py k w 1 l i + spec_score py k ws ls i"
| "spec_score py k ws ls i = 0"

section \<open>Threshold filter\<close>

text \<open>\<^verbatim>\<open>doc.metadata.get('score', 1.0)\<close>.\<close>

definition score_or_default :: "document \<Rightarrow> pyval" where
  "score_or_default doc = (case metadata doc ''score'' of None \<Rightarrow> PFloat 1 | Some v \<Rightarrow> v)"

text \<open>The loop of \<^verbatim>\<open>_filter_by_threshold\<close>; the comparison raises on a non-numeric score.\<close>

fun filter_loop :: "real \<Rightarrow> document list \<Rightarrow> exn + document list" where
  "filter_loop threshold [] = Inr []"
| "filter_loop threshold (doc # docs) =
     (case py_ge_float (score_or_default doc) threshold of
        Inl e \<Rightarrow> Inl e
      | Inr keep \<Rightarrow>
          (case filter_loop threshold docs of
             Inl e \<Rightarrow> Inl e
           | Inr filtered \<Rightarrow> Inr (if keep then doc # filtered else filtered)))"

text \<open>\<^verbatim>\<open>AdvancedRAGRetriever._filter_by_threshold\<close>.\<close>

definition filter_by_threshold :: "settings \<Rightarrow> document list \<Rightarrow> exn + document list" where
  "filter_by_threshold st documents =
     (case filter_loop (similarity_threshold st) documents of
        Inl e \<Rightarrow> Inl e
      | Inr filtered \<Rightarrow> Inr (if filtered \<noteq> [] then filtered else documents))"

subsection \<open>The threshold filter of the specification\<close>






section \<open>HyDE\<close>

text \<open>Collaborators: the store's search and the language model; either may raise.\<close>

type_synonym search = "string \<Rightarrow> int \<Rightarrow> meta option \<Rightarrow> exn + document list"

type_synonym llm = "string \<Rightarrow> real \<Rightarrow> exn + string"

text \<open>\<^verbatim>\<open>self.prompt.format(query=query)\<close> on \<^verbatim>\<open>HYDE_PROMPT\<close>.\<close>

definition hyde_prompt :: "string \<Rightarrow> string" where
  "hyde_prompt query =
     ''You are an expert consultant creating a hypothetical document excerpt that would perfectly answer the following question. ''
     @ [CHR 0x0A, CHR 0x0A] @
     ''Generate a detailed, informative paragraph (150-200 words) that directly answers this question as if it came from a high-quality consulting report or industry document. Include specific details, metrics, and professional terminology.''
     @ [CHR 0x0A, CHR 0x0A] @ ''Question: '' @ query
     @ [CHR 0x0A, CHR 0x0A] @ ''Hypothetical Document Excerpt:''"

text \<open>The temperature of hypothesis \<open>i\<close>: \<^verbatim>\<open>0.3 + (i * 0.2)\<close>.\<close>

definition temperature :: "nat \<Rightarrow> real" where
  "temperature i = 3 / 10 + real i * (2 / 10)"

text \<open>
  The loop inside the \<^verbatim>\<open>try\<close> of \<^verbatim>\<open>_generate_hypotheses\<close>, over the indices of
  \<^verbatim>\<open>range(self.num_hypotheses)\<close>: it raises as soon as one call of the model raises.
\<close>

fun generate_loop :: "llm \<Rightarrow> string \<Rightarrow> nat list \<Rightarrow> exn + string list" where
  "generate_loop invoke query [] = Inr []"
| "generate_loop invoke query (i # rest) =
     (case invoke (hyde_prompt query) (temperature i) of
        Inl e \<Rightarrow> Inl e
      | Inr content \<Rightarrow>
          (let hypothesis = py_strip content in
           case generate_loop invoke query rest of
             Inl e \<Rightarrow> Inl e
           | Inr hypotheses \<Rightarrow>
               Inr (if hypothesis \<noteq> [] then hypothesis # hypotheses else hypotheses)))"

text \<open>\<^verbatim>\<open>HyDERetriever._generate_hypotheses\<close>.\<close>

definition generate_hypotheses :: "llm \<Rightarrow> int \<Rightarrow> string \<Rightarrow> string list" where
  "generate_hypotheses invoke num_hypotheses query =
     (let hypotheses = (case generate_loop invoke query [0..<nat num_hypotheses] of
                          Inl e \<Rightarrow> [query]
                        | Inr hs \<Rightarrow> hs)
      in if hypotheses \<noteq> [] then hypotheses else [query])"

text \<open>\<^verbatim>\<open>HyDERetriever._deduplicate_documents\<close>, with the set \<open>seen\<close> of content hashes.\<close>

fun dedup_loop :: "builtins \<Rightarrow> int set \<Rightarrow> document list \<Rightarrow> document list" where
  "dedup_loop py seen [] = []"
| "dedup_loop py seen (doc # docs) =
     (let doc_hash = hash_str py (page_content doc) in
      if doc_hash \<notin> seen then doc # dedup_loop py (insert doc_hash seen) docs
      else dedup_loop py seen docs)"

definition deduplicate_documents :: "builtins \<Rightarrow> document list \<Rightarrow> document list" where
  "deduplicate_documents py documents = dedup_loop py {} documents"

text \<open>The search loop of \<^verbatim>\<open>HyDERetriever.retrieve\<close>.\<close>

fun search_each :: "search \<Rightarrow> string list \<Rightarrow> int \<Rightarrow> meta option \<Rightarrow> exn + document list" where
  "search_each vs [] k filters = Inr []"
| "search_each vs (hypothesis # rest) k filters =
     (case vs hypothesis k filters of
        Inl e \<Rightarrow> Inl e
      | Inr docs \<Rightarrow>
          (case search_each vs rest k filters of
             Inl e \<Rightarrow> Inl e
           | Inr all_documents \<Rightarrow> Inr (docs @ all_documents)))"

text \<open>\<^verbatim>\<open>HyDERetriever.retrieve\<close>; \<open>vs\<close> is \<^verbatim>\<open>self.vector_store.similarity_search\<close>.\<close>

definition hyde_retrieve ::
  "builtins \<Rightarrow> search \<Rightarrow> llm \<Rightarrow> int \<Rightarrow> string \<Rightarrow> int \<Rightarrow> meta option \<Rightarrow> exn + document list" where
  "hyde_retrieve py vs invoke num_hypotheses query k filters =
     (case search_each vs (generate_hypotheses invoke num_hypotheses query) k filters of
        Inr all_documents \<Rightarrow> Inr (py_take k (deduplicate_documents py all_documents))
      | Inl e \<Rightarrow> vs query k filters)"

subsection \<open>The hypothesis policy of the specification\<close>



section \<open>Reranker\<close>

text \<open>\<^verbatim>\<open>self.model.predict(pairs)\<close>; the model is \<open>None\<close> when it failed to load.\<close>

type_synonym predict = "(string \<times> string) list \<Rightarrow> exn + real list"

text \<open>The copy with \<^verbatim>\<open>{**doc.metadata, "rerank_score": float(score)}\<close>.\<close>

definition rerank_copy :: "document \<Rightarrow> real \<Rightarrow> document" where
  "rerank_copy doc score =
     \<lparr>page_content = page_content doc, content_id = content_id doc,
      metadata = (metadata doc)(''rerank_score'' \<mapsto> PFloat score)\<rparr>"

text \<open>\<^verbatim>\<open>CrossEncoderReranker.rerank\<close>.\<close>

definition rerank :: "predict option \<Rightarrow> string \<Rightarrow> document list \<Rightarrow> int \<Rightarrow> document list" where
  "rerank model query documents top_k =
     (case model of
        None \<Rightarrow> py_take top_k documents
      | Some predict \<Rightarrow>
          if documents = [] then py_take top_k documents
          else (case predict (map (\<lambda>doc. (query, page_content doc)) documents) of
                  Inl e \<Rightarrow> py_take top_k documents
                | Inr scores \<Rightarrow>
                    map (\<lambda>(doc, score). rerank_copy doc score)
                        (py_take top_k (sorted_desc (zip documents scores)))))"

text \<open>The rerank score a passage carries in its metadata, if any.\<close>

definition rerank_score_of :: "document \<Rightarrow> real option" where
  "rerank_score_of d = (case metadata d ''rerank_score'' of Some (PFloat s) \<Rightarrow> Some s | _ \<Rightarrow> None)"

section \<open>Hybrid combiner\<close>

text \<open>The local function \<^verbatim>\<open>normalize_scores\<close> of \<^verbatim>\<open>_combine_results\<close>.\<close>

definition normalize_scores :: "(document \<times> real) list \<Rightarrow> (document \<times> real) list" where
  "normalize_scores results =
     (if results = [] then []
      else let scores = map snd results;
               max_score = fold max (tl scores) (hd scores);
               min_score = fold min (tl scores) (hd scores);
               score_range = (if max_score \<noteq> min_score then max_score - min_score else 1)
           in map (\<lambda>(doc, score). (doc, (score - min_score) / score_range)) results)"

text \<open>
  An entry of the dictionary \<^verbatim>\<open>doc_scores\<close>: the document, its vector score and its keyword
  score. The dictionary is keyed by \<^verbatim>\<open>id(doc.page_content)\<close> and kept in insertion order.
\<close>

type_synonym entry = "document \<times> real \<times> real"

text \<open>\<^verbatim>\<open>doc_scores[doc_id] = {...}\<close>: a present key keeps its place and gets the new value.\<close>

fun dict_set :: "nat \<Rightarrow> entry \<Rightarrow> (nat \<times> entry) list \<Rightarrow> (nat \<times> entry) list" where
  "dict_set i e [] = [(i, e)]"
| "dict_set i e ((j, e') # rest) =
     (if j = i then (j, e) # rest else (j, e') # dict_set i e rest)"

text \<open>The first loop, over the normalised vector results.\<close>

fun add_vector :: "(document \<times> real) list \<Rightarrow> (nat \<times> entry) list \<Rightarrow> (nat \<times> entry) list" where
  "add_vector [] doc_scores = doc_scores"
| "add_vector ((doc, score) # rest) doc_scores =
     add_vector rest (dict_set (content_id doc) (doc, score, 0) doc_scores)"

text \<open>The second loop, over the normalised keyword results.\<close>

fun add_keyword :: "(document \<times> real) list \<Rightarrow> (nat \<times> entry) list \<Rightarrow> (nat \<times> entry) list" where
  "add_keyword [] doc_scores = doc_scores"
| "add_keyword ((doc, score) # rest) doc_scores =
     add_keyword rest
       (case map_of doc_scores (content_id doc) of
          Some (d, v, kw) \<Rightarrow> dict_set (content_id doc) (d, v, score) doc_scores
        | None \<Rightarrow> dict_set (content_id doc) (doc, 0, score) doc_scores)"

text \<open>\<^verbatim>\<open>SupabaseVectorStoreWrapper._combine_results\<close>.\<close>

definition combine_results ::
  "(document \<times> real) list \<Rightarrow> (document \<times> real) list \<Rightarrow> real \<Rightarrow> real \<Rightarrow> document list" where
  "combine_results vector_results keyword_results vector_weight keyword_weight =
     (let vector_normalized = normalize_scores vector_results;
          keyword_normalized = normalize_scores keyword_results;
          doc_scores = add_keyword keyword_normalized (add_vector vector_normalized []);
          results = map (\<lambda>(doc_id, (doc, v, kw)). (doc, v * vector_weight + kw * keyword_weight))
                        doc_scores
      in map fst (sorted_desc results))"

section \<open>The vector store wrapper\<close>

text \<open>Sequencing of calls that may raise, and \<^verbatim>\<open>try ... except Exception\<close>.\<close>

definition bind_exn :: "exn + 'a \<Rightarrow> ('a \<Rightarrow> exn + 'b) \<Rightarrow> exn + 'b" where
  "bind_exn m f = (case m of Inl e \<Rightarrow> Inl e | Inr x \<Rightarrow> f x)"

definition try_except :: "exn + 'a \<Rightarrow> (exn \<Rightarrow> exn + 'a) \<Rightarrow> exn + 'a" where
  "try_except body handler = (case body of Inl e \<Rightarrow> handler e | Inr x \<Rightarrow> Inr x)"

text \<open>
  A row of a Supabase response: the keys \<open>content\<close> (a string object, with its address)
  and \<open>metadata\<close> may be absent.
\<close>

record row =
  row_content :: "(string \<times> nat) option"
  row_metadata :: "meta option"

text \<open>
  What \<^verbatim>\<open>SupabaseVectorStoreWrapper\<close> calls outside itself: the LangChain store
  \<^verbatim>\<open>self.vector_store\<close> and the two queries on \<^verbatim>\<open>self.client\<close>. Each may raise.
\<close>

record store =
  inner_search :: search
  inner_search_with_scores :: "string \<Rightarrow> int \<Rightarrow> meta option \<Rightarrow> exn + (document \<times> real) list"
  text_search :: "string \<Rightarrow> int \<Rightarrow> exn + row list"
  ilike_search :: "string \<Rightarrow> int \<Rightarrow> exn + row list"

text \<open>\<^verbatim>\<open>SupabaseVectorStoreWrapper.similarity_search\<close>; a threshold of 0.0 is falsy.\<close>

definition similarity_search ::
  "store \<Rightarrow> string \<Rightarrow> int \<Rightarrow> meta option \<Rightarrow> real option \<Rightarrow> exn + document list" where
  "similarity_search vs query k filters score_threshold =
     try_except
       (bind_exn (inner_search vs query k filters) (\<lambda>results.
          case score_threshold of
            None \<Rightarrow> Inr results
          | Some t \<Rightarrow> if t = 0 then Inr results else filter_loop t results))
       (\<lambda>e. Inr [])"

text \<open>\<^verbatim>\<open>SupabaseVectorStoreWrapper.similarity_search_with_score\<close>.\<close>

definition similarity_search_with_score ::
  "store \<Rightarrow> string \<Rightarrow> int \<Rightarrow> meta option \<Rightarrow> exn + (document \<times> real) list" where
  "similarity_search_with_score vs query k filters =
     try_except (inner_search_with_scores vs query k filters) (\<lambda>e. Inr [])"

text \<open>The address of the literal \<^verbatim>\<open>""\<close> that \<^verbatim>\<open>row.get("content", "")\<close> falls back to.\<close>

definition empty_literal_id :: nat where
  "empty_literal_id = 0"

text \<open>\<^verbatim>\<open>Document(page_content=row.get("content", ""), metadata=row.get("metadata", {}))\<close>.\<close>

definition doc_of_row :: "row \<Rightarrow> document" where
  "doc_of_row r =
     \<lparr>page_content = (case row_content r of None \<Rightarrow> [] | Some (s, a) \<Rightarrow> s),
      content_id = (case row_content r of None \<Rightarrow> empty_literal_id | Some (s, a) \<Rightarrow> a),
      metadata = (case row_metadata r of None \<Rightarrow> Map.empty | Some m \<Rightarrow> m)\<rparr>"

text \<open>The loop over \<^verbatim>\<open>response.data\<close> in \<^verbatim>\<open>_keyword_search\<close>.\<close>

fun rows_to_results :: "string \<Rightarrow> row list \<Rightarrow> exn + (document \<times> real) list" where
  "rows_to_results query [] = Inr []"
| "rows_to_results query (r # rows) =
     (let doc = doc_of_row r in
      bind_exn (simple_keyword_score query (page_content doc)) (\<lambda>score.
      bind_exn (rows_to_results query rows) (\<lambda>results.
      Inr ((doc, score) # results))))"

text \<open>\<^verbatim>\<open>SupabaseVectorStoreWrapper._keyword_search\<close>.\<close>

definition keyword_search :: "store \<Rightarrow> string \<Rightarrow> int \<Rightarrow> exn + (document \<times> real) list" where
  "keyword_search vs query k =
     try_except
       (bind_exn (text_search vs query k) (rows_to_results query))
       (\<lambda>e. try_except
               (bind_exn (ilike_search vs (''%'' @ query @ ''%'') k) (rows_to_results query))
               (\<lambda>fallback_e. Inr []))"

text \<open>\<^verbatim>\<open>SupabaseVectorStoreWrapper.hybrid_search\<close>.\<close>

definition hybrid_search :: "store \<Rightarrow> string \<Rightarrow> int \<Rightarrow> real \<Rightarrow> real \<Rightarrow> exn + document list" where
  "hybrid_search vs query k vector_weight keyword_weight =
     try_except
       (bind_exn (similarity_search_with_score vs query (k * 2) None) (\<lambda>vector_results.
        bind_exn (keyword_search vs query (k * 2)) (\<lambda>keyword_results.
        Inr (py_take k (combine_results vector_results keyword_results
                          vector_weight keyword_weight)))))
       (\<lambda>e. similarity_search vs query k None None)"

section \<open>The retrieval pipeline\<close>

text \<open>
  What \<^verbatim>\<open>AdvancedRAGRetriever\<close> holds or calls: the wrapped store, the language model,
  LangChain's multi-query retriever (given the query, the per-variant size and the filter),
  the cross-encoder of the reranker (\<open>None\<close> when it failed to load) and the builtins.
\<close>

record collaborators =
  vector_store :: store
  llm_invoke :: llm
  multi_query_docs :: "string \<Rightarrow> int \<Rightarrow> meta option \<Rightarrow> exn + document list"
  reranker_model :: "predict option"
  python :: builtins

text \<open>\<^verbatim>\<open>AdvancedRAGRetriever._simple_retrieve\<close>.\<close>

definition simple_retrieve :: "collaborators \<Rightarrow> string \<Rightarrow> int \<Rightarrow> meta option \<Rightarrow> exn + document list" where
  "simple_retrieve c query k filters = similarity_search (vector_store c) query k filters None"

text \<open>\<^verbatim>\<open>AdvancedRAGRetriever._hybrid_retrieve\<close>.\<close>

definition hybrid_retrieve :: "collaborators \<Rightarrow> string \<Rightarrow> int \<Rightarrow> meta option \<Rightarrow> exn + document list" where
  "hybrid_retrieve c query k filters = hybrid_search (vector_store c) query k (7 / 10) (3 / 10)"

text \<open>\<^verbatim>\<open>AdvancedRAGRetriever._hyde_retrieve\<close>: a \<^verbatim>\<open>HyDERetriever\<close> with three hypotheses.\<close>

definition hyde_retrieve_of :: "collaborators \<Rightarrow> string \<Rightarrow> int \<Rightarrow> meta option \<Rightarrow> exn + document list" where
  "hyde_retrieve_of c query k filters =
     hyde_retrieve (python c) (\<lambda>q n f. similarity_search (vector_store c) q n f None)
       (llm_invoke c) 3 query k filters"

text \<open>\<^verbatim>\<open>AdvancedRAGRetriever._multi_query_retrieve\<close>.\<close>

definition multi_query_retrieve :: "collaborators \<Rightarrow> string \<Rightarrow> int \<Rightarrow> meta option \<Rightarrow> exn + document list" where
  "multi_query_retrieve c query k filters =
     try_except (multi_query_docs c query (k div 3) filters)
                (\<lambda>e. simple_retrieve c query k filters)"

text \<open>\<^verbatim>\<open>AdvancedRAGRetriever._advanced_retrieve\<close>; the fusion constant is the default 60.\<close>

definition advanced_retrieve ::
  "flags \<Rightarrow> collaborators \<Rightarrow> string \<Rightarrow> int \<Rightarrow> meta option \<Rightarrow> exn + document list" where
  "advanced_retrieve fl c query k filters =
     bind_exn (simple_retrieve c query k filters) (\<lambda>standard_docs.
     bind_exn (if enable_hyde fl
               then bind_exn (hyde_retrieve_of c query k filters) (\<lambda>hyde_docs. Inr [hyde_docs])
               else Inr []) (\<lambda>hyde_part.
     bind_exn (multi_query_retrieve c query k filters) (\<lambda>mq_docs.
     bind_exn (if enable_hybrid fl
               then bind_exn (hybrid_retrieve c query k filters) (\<lambda>hybrid_docs. Inr [hybrid_docs])
               else Inr []) (\<lambda>hybrid_part.
     bind_exn (fuse (python c) 60 ([standard_docs] @ hyde_part @ [mq_docs] @ hybrid_part) None)
       (\<lambda>fused_documents. Inr (py_take k fused_documents))))))"

text \<open>\<^verbatim>\<open>top_k = top_k or settings.top_k_final\<close>: \<open>None\<close> and 0 are falsy.\<close>

definition final_k :: "settings \<Rightarrow> int option \<Rightarrow> int" where
  "final_k st top_k = (case top_k of None \<Rightarrow> top_k_final st
                       | Some n \<Rightarrow> if n = 0 then top_k_final st else n)"

text \<open>The body of the \<^verbatim>\<open>try\<close> in \<^verbatim>\<open>AdvancedRAGRetriever.retrieve\<close>.\<close>

definition retrieve_body ::
  "flags \<Rightarrow> settings \<Rightarrow> collaborators \<Rightarrow> string \<Rightarrow> int \<Rightarrow> meta option \<Rightarrow> string \<Rightarrow>
   exn + document list" where
  "retrieve_body fl st c query top_k filters retrieval_strategy =
     (let initial_k = top_k_retrieval st;
          strategy = (if retrieval_strategy = ''auto'' then select_strategy fl query
                      else retrieval_strategy)
      in bind_exn
           (if strategy = ''simple'' then simple_retrieve c query initial_k filters
            else if strategy = ''hybrid'' then hybrid_retrieve c query initial_k filters
            else if strategy = ''advanced'' then advanced_retrieve fl c query initial_k filters
            else simple_retrieve c query initial_k filters) (\<lambda>documents.
         (let documents' = (if enable_reranking fl \<and> documents \<noteq> []
                            then rerank (reranker_model c) query documents top_k
                            else py_take top_k documents)
          in if similarity_threshold st > 0 then filter_by_threshold st documents'
             else Inr documents')))"

text \<open>\<^verbatim>\<open>AdvancedRAGRetriever.retrieve\<close>.\<close>

definition retrieve ::
  "flags \<Rightarrow> settings \<Rightarrow> collaborators \<Rightarrow> string \<Rightarrow> int option \<Rightarrow> meta option \<Rightarrow> string \<Rightarrow>
   exn + document list" where
  "retrieve fl st c query top_k filters retrieval_strategy =
     try_except
       (retrieve_body fl st c query (final_k st top_k) filters retrieval_strategy)
       (\<lambda>e. simple_retrieve c query (final_k st top_k) filters)"

section \<open>Sample values\<close>

text \<open>Concrete builtins and passages on which the theorems below are instantiated.\<close>

definition py0 :: builtins where
  "py0 = \<lparr>hash_str = (\<lambda>s. int (length s)),
          str_of = (\<lambda>v. case v of PStr s \<Rightarrow> s | PInt i \<Rightarrow> replicate (nat i) CHR ''#'' | _ \<Rightarrow> ''?'')\<rparr>"

definition docA :: document where
  "docA = \<lparr>page_content = ''alpha'', content_id = 1, metadata = [''id'' \<mapsto> PStr ''a'']\<rparr>"

definition docB :: document where
  "docB = \<lparr>page_content = ''beta'', content_id = 2, metadata = [''id'' \<mapsto> PStr ''b'']\<rparr>"

text \<open>The default settings, and passages that carry scores.\<close>

definition st0 :: settings where
  "st0 = \<lparr>top_k_retrieval = 20, top_k_final = 5, similarity_threshold = 7 / 10\<rparr>"

definition doc_low :: document where
  "doc_low = \<lparr>page_content = ''low'', content_id = 3,
              metadata = [''rerank_score'' \<mapsto> PFloat (1 / 10)]\<rparr>"


definition doc_p1 :: document where
  "doc_p1 = \<lparr>page_content = ''p1'', content_id = 5, metadata = [''score'' \<mapsto> PFloat (9 / 10)]\<rparr>"

definition doc_p2 :: document where
  "doc_p2 = \<lparr>page_content = ''p2'', content_id = 6, metadata = [''score'' \<mapsto> PFloat (4 / 10)]\<rparr>"


definition llm_ok :: llm where
  "llm_ok prompt t = Inr '' h ''"


text \<open>A scorer that rates a passage by the length of its content, and one that raises.\<close>

definition predict_length :: predict where
  "predict_length pairs = Inr (map (\<lambda>p. real (length (snd p))) pairs)"

definition predict_fails :: predict where
  "predict_fails pairs = Inl ExternalError"

text \<open>
  A third passage, and the passage \<open>docB\<close> as a second query result delivers it: equal
  content and metadata, held by another string object.
\<close>

definition docC :: document where
  "docC = \<lparr>page_content = ''gamma'', content_id = 8, metadata = [''id'' \<mapsto> PStr ''c'']\<rparr>"

definition docB_again :: document where
  "docB_again = \<lparr>page_content = ''beta'', content_id = 7, metadata = [''id'' \<mapsto> PStr ''b'']\<rparr>"

text \<open>
  A passage whose \<open>score\<close> entry is a string, a store that answers every search with three
  such passages whatever size is asked for, and a store that honours the size asked for.
\<close>

definition doc_bad :: document where
  "doc_bad = \<lparr>page_content = ''bad'', content_id = 9, metadata = [''score'' \<mapsto> PStr ''high'']\<rparr>"

definition store_three :: store where
  "store_three =
     \<lparr>inner_search = (\<lambda>q k filters. Inr [doc_bad, doc_bad, doc_bad]),
      inner_search_with_scores = (\<lambda>q k filters. Inl ExternalError),
      text_search = (\<lambda>q k. Inl ExternalError),
      ilike_search = (\<lambda>q k. Inl ExternalError)\<rparr>"

definition store_honest :: store where
  "store_honest =
     \<lparr>inner_search = (\<lambda>q k filters. Inr (take (nat k) [docA, docB, docC])),
      inner_search_with_scores = (\<lambda>q k filters. Inl ExternalError),
      text_search = (\<lambda>q k. Inl ExternalError),
      ilike_search = (\<lambda>q k. Inl ExternalError)\<rparr>"

definition collaborators_of :: "store \<Rightarrow> collaborators" where
  "collaborators_of vs =
     \<lparr>vector_store = vs, llm_invoke = llm_ok,
      multi_query_docs = (\<lambda>q k filters. Inl ExternalError),
      reranker_model = None, python = py0\<rparr>"

definition flags_off :: flags where
  "flags_off = \<lparr>enable_hyde = False, enable_reranking = False, enable_hybrid = False\<rparr>"

section \<open>Theorems\<close>

lemma select_strategy_table:
  "select_strategy fl q =
     (let n = length (py_split q) in
      if n < 5 then ''simple''
      else if n < 15 then (if enable_hybrid fl then ''hybrid''
                           else if enable_hyde fl then ''advanced'' else ''simple'')
      else (if enable_hyde fl then ''advanced''
            else if enable_hybrid fl then ''hybrid'' else ''simple''))"
  by (simp add: select_strategy_def Let_def)

lemma py_split_five: "py_split ''a b c d e'' = [''a'', ''b'', ''c'', ''d'', ''e'']"
  by (simp add: py_split_def is_space_def)

text \<open>
  C1. Strategy selection depends only on the whitespace token count and the flags; below
  5 tokens it is \<open>simple\<close> and from 15 tokens on it is \<open>advanced\<close> with HyDE, else
  \<open>hybrid\<close> when enabled, else \<open>simple\<close>. For 5 to 14 tokens the specification promises \<open>simple\<close>
  whenever hybrid is disabled, but the third branch of the source, commented as the branch
  for complex queries, carries no length test: the five-token query below, with hybrid
  disabled and HyDE enabled, is sent to \<open>advanced\<close>.
\<close>

theorem select_strategy_medium_no_hybrid:
  "length (py_split ''a b c d e'') = 5 \<and>
   select_strategy \<lparr>enable_hyde = True, enable_reranking = False, enable_hybrid = False\<rparr>
     ''a b c d e'' = ''advanced''"
  by (simp add: select_strategy_def py_split_five)

text \<open>
  C10. The keyword score never divides by zero: it always returns a value, that value
  lies in [0,1], it is matches / number of query terms, and it is 0 when the lowercased
  query has no token.
\<close>

theorem simple_keyword_score_range:
  "\<exists>r. simple_keyword_score query text = Inr r \<and> 0 \<le> r \<and> r \<le> 1 \<and>
       r = (if py_split (py_lower query) = [] then 0
            else real (length (filter (\<lambda>term. str_contains term (py_lower text))
                                 (py_split (py_lower query))))
                 / real (length (py_split (py_lower query))))"
  by (simp add: simple_keyword_score_def py_truediv_def Let_def divide_le_eq)

theorem simple_keyword_score_range_witness:
  "simple_keyword_score ''Refund Policy'' ''the refund rules'' = Inr (1 / 2)"
proof -
  have s: "py_split (py_lower ''Refund Policy'') = [''refund'', ''policy'']"
    by code_simp
  have t: "py_lower ''the refund rules'' = ''the refund rules''"
    by (simp add: py_lower_def lower_char_def)
  have "str_contains ''refund'' ''the refund rules''" by simp
  moreover have "\<not> str_contains ''policy'' ''the refund rules''" by simp
  ultimately show ?thesis
    using simple_keyword_score_range [of "''Refund Policy''" "''the refund rules''"]
    by (simp only: s t) auto
qed

subsection \<open>Rank fusion\<close>

lemma first_seen_snoc: "first_seen (xs @ [x]) = (if x \<in> set xs then first_seen xs else first_seen xs @ [x])"
  by (simp add: first_seen_def)

lemma set_first_seen: "set (first_seen xs) = set xs"
  by (simp add: first_seen_def)

lemma distinct_first_seen: "distinct (first_seen xs)"
  by (simp add: first_seen_def)

lemma keys_add_score: "map fst (add_score i s sc) = (if i \<in> set (map fst sc) then map fst sc else map fst sc @ [i])"
  by (induction sc) force+

lemma map_of_add_score: "map_of (add_score i s sc) j =
   (if j = i then Some ((case map_of sc i of None \<Rightarrow> 0 | Some t \<Rightarrow> t) + s) else map_of sc j)"
  by (induction sc) auto

lemma add_all_snoc: "add_all (cs @ [c]) sc = add_score (fst c) (snd c) (add_all cs sc)"
  by (simp add: add_all_def)

lemma add_all_append: "add_all (cs @ ds) sc = add_all ds (add_all cs sc)"
  by (simp add: add_all_def)

lemma add_all_Cons: "add_all (c # cs) sc = add_all cs (add_score (fst c) (snd c) sc)"
  by (simp add: add_all_def)

lemma keys_add_all: "map fst (add_all cs []) = first_seen (map fst cs)"
proof (induction cs rule: rev_induct)
  case Nil show ?case by (simp add: add_all_def first_seen_def)
next
  case (snoc c cs)
  have "set (map fst (add_all cs [])) = set (map fst cs)"
    using snoc by (simp only: set_first_seen)
  with snoc show ?case
    by (simp only: add_all_snoc keys_add_score first_seen_snoc map_append list.map)
qed

lemma filter_key_empty: "i \<notin> set (map fst cs) \<Longrightarrow> filter (\<lambda>c. fst c = i) cs = []"
  by (induction cs) auto

lemma map_of_add_all: "map_of (add_all cs []) i =
   (if i \<in> set (map fst cs) then Some (sum_list (map snd (filter (\<lambda>c. fst c = i) cs))) else None)"
proof (induction cs rule: rev_induct)
  case Nil show ?case by (simp add: add_all_def)
next
  case (snoc c cs)
  then show ?case by (auto simp: add_all_snoc map_of_add_score filter_key_empty)
qed

lemma assoc_closed_form:
  assumes "distinct (map fst xs)" and "\<And>i. i \<in> set (map fst xs) \<Longrightarrow> map_of xs i = Some (f i)"
  shows "xs = map (\<lambda>i. (i, f i)) (map fst xs)"
  using assms
proof (induction xs)
  case Nil show ?case by simp
next
  case (Cons x xs)
  have a: "snd x = f (fst x)" using Cons.prems(2)[of "fst x"] by (cases x) simp
  have "\<And>i. i \<in> set (map fst xs) \<Longrightarrow> map_of xs i = Some (f i)"
  proof -
    fix i assume i: "i \<in> set (map fst xs)"
    then have "i \<noteq> fst x" using Cons.prems(1) by force
    then show "map_of xs i = Some (f i)" using Cons.prems(2)[of i] i by (cases x) auto
  qed
  then have "xs = map (\<lambda>i. (i, f i)) (map fst xs)" using Cons.IH Cons.prems(1) by simp
  then show ?case using a by (cases x) auto
qed

lemma add_all_closed:
  "add_all cs [] = map (\<lambda>i. (i, sum_list (map snd (filter (\<lambda>c. fst c = i) cs)))) (first_seen (map fst cs))"
proof -
  have d: "distinct (map fst (add_all cs []))" by (simp only: keys_add_all distinct_first_seen)
  have m: "\<And>i. i \<in> set (map fst (add_all cs [])) \<Longrightarrow>
        map_of (add_all cs []) i = Some (sum_list (map snd (filter (\<lambda>c. fst c = i) cs)))"
    by (simp only: keys_add_all set_first_seen map_of_add_all if_True)
  show ?thesis using assoc_closed_form[OF d m] by (simp only: keys_add_all)
qed

lemma list_contribs_Nil: "list_contribs py k w rank [] = []"
  by (simp add: list_contribs_def)

lemma list_contribs_Cons: "list_contribs py k w rank (d # l) =
   (get_doc_id py d, w / real_of_int (k + int rank)) # list_contribs py k w (Suc rank) l"
  by (simp add: list_contribs_def)

lemma fuse_list_ok:
  "0 \<le> k \<Longrightarrow> 0 < rank \<Longrightarrow>
   fuse_list py k w rank l (sc, ob) =
     Inr (add_all (list_contribs py k w rank l) sc, keep_all py l ob)"
proof (induction l arbitrary: rank sc ob)
  case Nil show ?case by (simp add: list_contribs_Nil add_all_def keep_all_def)
next
  case (Cons d l)
  have nz: "real_of_int (k + int rank) \<noteq> 0" using Cons.prems by simp
  show ?case using Cons.IH[OF Cons.prems(1), of "Suc rank"] nz
    by (simp add: py_truediv_def list_contribs_Cons add_all_Cons keep_all_def Let_def)
qed

lemma contributions_Nil: "contributions py k [] = []"
  by (simp add: contributions_def)

lemma contributions_Cons: "contributions py k ((w, l) # wls) = list_contribs py k w 1 l @ contributions py k wls"
  by (simp add: contributions_def list_contribs_def)

lemma fuse_lists_ok:
  "0 \<le> k \<Longrightarrow>
   fuse_lists py k wls (sc, ob) =
     Inr (add_all (contributions py k wls) sc, keep_all py (scanned wls) ob)"
proof (induction wls arbitrary: sc ob)
  case Nil show ?case by (simp add: contributions_Nil add_all_def keep_all_def scanned_def)
next
  case (Cons wl wls)
  obtain w l where wl: "wl = (w, l)" by (cases wl)
  show ?case using Cons.IH[OF Cons.prems]
    by (simp add: wl fuse_list_ok[OF Cons.prems] contributions_Cons add_all_append keep_all_def scanned_def)
qed

lemma keep_all_lookup:
  "keep_all py ds ob i = (case ob i of Some d \<Rightarrow> Some d | None \<Rightarrow> find (\<lambda>d. get_doc_id py d = i) ds)"
proof (induction ds arbitrary: ob)
  case Nil show ?case by (simp add: keep_all_def split: option.splits)
next
  case (Cons d ds)
  have "keep_all py (d # ds) ob = keep_all py ds (keep_first (get_doc_id py d) d ob)"
    by (simp add: keep_all_def)
  then show ?case using Cons.IH[of "keep_first (get_doc_id py d) d ob"]
    by (auto simp: keep_first_def split: option.splits)
qed

lemma keys_list_contribs: "map fst (list_contribs py k w rank l) = map (get_doc_id py) l"
  by (induction l arbitrary: rank) (simp_all add: list_contribs_Nil list_contribs_Cons)

lemma keys_contributions: "map fst (contributions py k wls) = map (get_doc_id py) (scanned wls)"
proof (induction wls)
  case Nil show ?case by (simp add: contributions_def scanned_def)
next
  case (Cons wl wls)
  obtain w l where wl: "wl = (w, l)" by (cases wl)
  show ?case using Cons by (simp add: wl contributions_Cons scanned_def keys_list_contribs)
qed

lemma fused_docs_ok:
  "(\<And>i. i \<in> set (map fst items) \<Longrightarrow> ob i \<noteq> None) \<Longrightarrow>
   fused_docs ob items = Inr (map (\<lambda>x. rrf_copy (the (ob (fst x))) (snd x)) items)"
proof (induction items)
  case Nil show ?case by simp
next
  case (Cons x items)
  obtain i s where x: "x = (i, s)" by (cases x)
  have "ob i \<noteq> None" using Cons.prems[of i] by (simp add: x)
  then obtain d where d: "ob i = Some d" by auto
  have "fused_docs ob items = Inr (map (\<lambda>x. rrf_copy (the (ob (fst x))) (snd x)) items)"
    using Cons.IH Cons.prems by simp
  then show ?case by (simp add: x d)
qed

lemma set_sorted_desc: "set (sorted_desc items) = set items"
  by (simp add: sorted_desc_def)

lemma find_doc_id:
  "i \<in> set (map (get_doc_id py) ds) \<Longrightarrow>
   \<exists>d. find (\<lambda>d. get_doc_id py d = i) ds = Some d \<and> get_doc_id py d = i \<and> d \<in> set ds"
  by (induction ds) auto

lemma fuse_lists_closed:
  "0 \<le> k \<Longrightarrow>
   fuse_lists py k wls ([], Map.empty) = Inr (fused_items py k wls, first_doc py wls)"
proof -
  assume k: "0 \<le> k"
  have "keep_all py (scanned wls) Map.empty = first_doc py wls"
    by (rule ext) (simp add: keep_all_lookup first_doc_def)
  moreover have "add_all (contributions py k wls) [] = fused_items py k wls"
    unfolding fused_items_def rrf_total_def
    by (simp only: add_all_closed keys_contributions)
  ultimately show ?thesis by (simp add: fuse_lists_ok[OF k])
qed

lemma fuse_closed:
  assumes k: "0 \<le> k"
  shows "fuse py k ls ws =
     Inr (map (\<lambda>x. rrf_copy (the (first_doc py (weighted_lists ls ws) (fst x))) (snd x))
              (sorted_desc (fused_items py k (weighted_lists ls ws))))"
proof (cases "ls = []")
  case True
  then show ?thesis
    by (simp add: fuse_def weighted_lists_def fused_items_def scanned_def first_seen_def sorted_desc_def)
next
  case False
  let ?wls = "weighted_lists ls ws"
  have "\<And>i. i \<in> set (map fst (sorted_desc (fused_items py k ?wls))) \<Longrightarrow> first_doc py ?wls i \<noteq> None"
  proof -
    fix i assume "i \<in> set (map fst (sorted_desc (fused_items py k ?wls)))"
    then have "i \<in> set (map (get_doc_id py) (scanned ?wls))"
      by (auto simp: set_sorted_desc fused_items_def set_first_seen)
    from find_doc_id[OF this] show "first_doc py ?wls i \<noteq> None"
      by (auto simp: first_doc_def)
  qed
  from fused_docs_ok[of "sorted_desc (fused_items py k ?wls)" "first_doc py ?wls", OF this]
  show ?thesis using False by (simp add: fuse_def fuse_lists_closed[OF k])
qed

lemma get_doc_id_rrf_copy: "get_doc_id py (rrf_copy d s) = get_doc_id py d"
  by (simp add: get_doc_id_def rrf_copy_def split: option.splits)

lemma rrf_score_of_rrf_copy: "rrf_score_of (rrf_copy d s) = Some s"
  by (simp add: rrf_score_of_def rrf_copy_def)

lemma sorted_desc_scores: "sorted_wrt (\<lambda>a b. a \<ge> b) (map snd (sorted_desc items))"
proof -
  have "sorted (map (\<lambda>x. - snd x) (sorted_desc items))"
    unfolding sorted_desc_def by (rule sorted_sort_key)
  then have "sorted_wrt (\<lambda>x y. - snd x \<le> - snd y) (sorted_desc items)"
    by (simp add: sorted_map)
  then show ?thesis by (simp add: sorted_wrt_map)
qed

lemma sorted_desc_stable:
  "filter (\<lambda>x. snd x = s) (sorted_desc items) = filter (\<lambda>x. snd x = s) items"
proof -
  have "filter (\<lambda>x. - snd x = - s) (sort_key (\<lambda>x. - snd x) items) = filter (\<lambda>x. - snd x = - s) items"
    by (rule sort_key_stable)
  then show ?thesis by (simp add: sorted_desc_def)
qed

lemma fuse_closed':
  "0 \<le> k \<Longrightarrow> fuse py k ls ws =
     Inr (map (fused_out py (weighted_lists ls ws)) (sorted_desc (fused_items py k (weighted_lists ls ws))))"
  by (simp add: fuse_closed fused_out_def)

lemma fused_items_member:
  assumes "x \<in> set (fused_items py k wls)"
  shows "snd x = rrf_total py k wls (fst x) \<and>
         (\<exists>d0. first_doc py wls (fst x) = Some d0 \<and> get_doc_id py d0 = fst x \<and> d0 \<in> set (scanned wls))"
proof -
  from assms have s: "snd x = rrf_total py k wls (fst x)"
    and i: "fst x \<in> set (map (get_doc_id py) (scanned wls))"
    by (auto simp: fused_items_def set_first_seen)
  from find_doc_id[OF i] s show ?thesis by (auto simp: first_doc_def)
qed

lemma fused_out_id:
  "x \<in> set (fused_items py k wls) \<Longrightarrow> get_doc_id py (fused_out py wls x) = fst x"
  using fused_items_member[of x py k wls] by (auto simp: fused_out_def get_doc_id_rrf_copy)

lemma fused_out_score: "rrf_score_of (fused_out py wls x) = Some (snd x)"
  by (simp add: fused_out_def rrf_score_of_rrf_copy)

lemma fused_out_ids:
  "set xs \<subseteq> set (fused_items py k wls) \<Longrightarrow> map (get_doc_id py) (map (fused_out py wls) xs) = map fst xs"
  by (induction xs) (auto simp: fused_out_id)

lemma distinct_fused_items: "distinct (map fst (fused_items py k wls))"
  by (simp add: fused_items_def comp_def distinct_first_seen)

lemma keys_fused_items: "map fst (fused_items py k wls) = first_seen (map (get_doc_id py) (scanned wls))"
  by (simp add: fused_items_def comp_def)

lemma distinct_keys_sorted_desc: "distinct (map fst items) \<Longrightarrow> distinct (map fst (sorted_desc items))"
  by (simp add: distinct_map sorted_desc_def)

lemma fuse_ids:
  assumes "0 \<le> k"
  shows "\<exists>out. fuse py k ls ws = Inr out \<and>
     distinct (map (get_doc_id py) out) \<and>
     set (map (get_doc_id py) out) = set (map (get_doc_id py) (scanned (weighted_lists ls ws))) \<and>
     (\<forall>d \<in> set out. rrf_score_of d = Some (rrf_total py k (weighted_lists ls ws) (get_doc_id py d)))"
proof -
  let ?wls = "weighted_lists ls ws"
  let ?items = "fused_items py k ?wls"
  let ?out = "map (fused_out py ?wls) (sorted_desc ?items)"
  have ids: "map (get_doc_id py) ?out = map fst (sorted_desc ?items)"
    by (rule fused_out_ids[of _ py k]) (simp add: set_sorted_desc)
  have 1: "distinct (map (get_doc_id py) ?out)"
    by (simp only: ids distinct_keys_sorted_desc[OF distinct_fused_items])
  have "set (map fst (sorted_desc ?items)) = set (map fst ?items)"
    by (simp add: set_sorted_desc)
  then have 2: "set (map (get_doc_id py) ?out) = set (map (get_doc_id py) (scanned ?wls))"
    by (simp only: ids keys_fused_items set_first_seen)
  have 3: "\<forall>d \<in> set ?out. rrf_score_of d = Some (rrf_total py k ?wls (get_doc_id py d))"
  proof
    fix d assume "d \<in> set ?out"
    then obtain x where x: "x \<in> set ?items" and d: "d = fused_out py ?wls x"
      by (auto simp: set_sorted_desc)
    show "rrf_score_of d = Some (rrf_total py k ?wls (get_doc_id py d))"
      using fused_items_member[OF x] by (simp add: d fused_out_score fused_out_id[OF x])
  qed
  show ?thesis using fuse_closed'[OF assms, of py ls ws] 1 2 3 by blast
qed

lemma fuse_same_twice: "fuse py 60 [[A], [A]] None = Inr [rrf_copy A (2 / 61)]"
  by (simp add: fuse_def weighted_lists_def py_truediv_def keep_first_def sorted_desc_def Let_def)

lemma fuse_two_docs:
  "get_doc_id py d1 \<noteq> get_doc_id py d2 \<Longrightarrow>
   \<exists>out. fuse py 60 [[d1, d2], [d2, d1]] None = Inr out \<and> length out = 2"
  by (auto simp add: fuse_def weighted_lists_def py_truediv_def keep_first_def sorted_desc_def Let_def)

lemma fuse_tie_example:
  "get_doc_id py A \<noteq> get_doc_id py B \<Longrightarrow>
   fuse py 60 [[A, B], [B, A]] None =
     Inr [rrf_copy A (1 / 61 + 1 / 62), rrf_copy B (1 / 62 + 1 / 61)]"
  by (auto simp add: fuse_def weighted_lists_def py_truediv_def keep_first_def sorted_desc_def Let_def)

lemma fuse_sorted:
  assumes "0 \<le> k"
  shows "\<exists>out scores. fuse py k ls ws = Inr out \<and>
     map rrf_score_of out = map Some scores \<and> sorted_wrt (\<lambda>a b. a \<ge> b) scores"
proof -
  let ?wls = "weighted_lists ls ws"
  let ?items = "fused_items py k ?wls"
  let ?out = "map (fused_out py ?wls) (sorted_desc ?items)"
  have "map rrf_score_of ?out = map Some (map snd (sorted_desc ?items))"
    by (simp add: fused_out_score comp_def)
  then show ?thesis using fuse_closed'[OF assms, of py ls ws] sorted_desc_scores by blast
qed

lemma fuse_ties:
  assumes "0 \<le> k"
  shows "\<exists>out. fuse py k ls ws = Inr out \<and>
     (\<forall>s. map (get_doc_id py) (filter (\<lambda>d. rrf_score_of d = Some s) out) =
          filter (\<lambda>i. rrf_total py k (weighted_lists ls ws) i = s)
                 (first_seen (map (get_doc_id py) (scanned (weighted_lists ls ws)))))"
proof -
  let ?wls = "weighted_lists ls ws"
  let ?items = "fused_items py k ?wls"
  let ?out = "map (fused_out py ?wls) (sorted_desc ?items)"
  have "\<And>s. map (get_doc_id py) (filter (\<lambda>d. rrf_score_of d = Some s) ?out) =
          filter (\<lambda>i. rrf_total py k ?wls i = s) (first_seen (map (get_doc_id py) (scanned ?wls)))"
  proof -
    fix s
    have "filter (\<lambda>d. rrf_score_of d = Some s) ?out =
          map (fused_out py ?wls) (filter (\<lambda>x. snd x = s) (sorted_desc ?items))"
      by (simp add: filter_map comp_def fused_out_score)
    also have "\<dots> = map (fused_out py ?wls) (filter (\<lambda>x. snd x = s) ?items)"
      by (simp only: sorted_desc_stable)
    finally have "map (get_doc_id py) (filter (\<lambda>d. rrf_score_of d = Some s) ?out) =
          map fst (filter (\<lambda>x. snd x = s) ?items)"
      by (simp only: fused_out_ids[of "filter (\<lambda>x. snd x = s) ?items" py k ?wls, OF filter_is_subset])
    also have "\<dots> = filter (\<lambda>i. rrf_total py k ?wls i = s) (first_seen (map (get_doc_id py) (scanned ?wls)))"
      by (simp add: fused_items_def filter_map comp_def)
    finally show "map (get_doc_id py) (filter (\<lambda>d. rrf_score_of d = Some s) ?out) =
          filter (\<lambda>i. rrf_total py k ?wls i = s) (first_seen (map (get_doc_id py) (scanned ?wls)))" .
  qed
  then show ?thesis using fuse_closed'[OF assms, of py ls ws] by blast
qed

lemma fuse_objects:
  assumes "0 \<le> k"
  shows "\<exists>out. fuse py k ls ws = Inr out \<and>
     (\<forall>d \<in> set out. \<exists>d0. find (\<lambda>x. get_doc_id py x = get_doc_id py d) (scanned (weighted_lists ls ws)) = Some d0 \<and>
             d = rrf_copy d0 (rrf_total py k (weighted_lists ls ws) (get_doc_id py d)))"
proof -
  let ?wls = "weighted_lists ls ws"
  let ?items = "fused_items py k ?wls"
  let ?out = "map (fused_out py ?wls) (sorted_desc ?items)"
  have "\<forall>d \<in> set ?out. \<exists>d0. find (\<lambda>x. get_doc_id py x = get_doc_id py d) (scanned ?wls) = Some d0 \<and>
             d = rrf_copy d0 (rrf_total py k ?wls (get_doc_id py d))"
  proof
    fix d assume "d \<in> set ?out"
    then obtain x where x: "x \<in> set ?items" and d: "d = fused_out py ?wls x"
      by (auto simp: set_sorted_desc)
    from fused_items_member[OF x] obtain d0 where
      s: "snd x = rrf_total py k ?wls (fst x)" and f: "first_doc py ?wls (fst x) = Some d0" by auto
    have "d = rrf_copy d0 (rrf_total py k ?wls (fst x))" by (simp add: d fused_out_def f s)
    moreover have "get_doc_id py d = fst x" by (simp add: d fused_out_id[OF x])
    ultimately show "\<exists>d0. find (\<lambda>x. get_doc_id py x = get_doc_id py d) (scanned ?wls) = Some d0 \<and>
             d = rrf_copy d0 (rrf_total py k ?wls (get_doc_id py d))"
      using f by (simp add: first_doc_def)
  qed
  then show ?thesis using fuse_closed'[OF assms, of py ls ws] by blast
qed

lemma scanned_weighted:
  "(case ws of None \<Rightarrow> True | Some w \<Rightarrow> length w = length ls) \<Longrightarrow>
   scanned (weighted_lists ls ws) = concat ls"
  by (simp add: scanned_def weighted_lists_def split: option.splits)

lemma sample_ids: "get_doc_id py0 docA = ''a''" "get_doc_id py0 docB = ''b''"
  by (simp_all add: get_doc_id_def py0_def docA_def docB_def)

lemma get_doc_id_identity: "get_doc_id py d = passage_identity py d"
  by (auto simp: get_doc_id_def passage_identity_def split: option.splits)

lemma list_contribs_score:
  "sum_list (map snd (filter (\<lambda>c. fst c = i) (list_contribs py k w r l))) = list_score py k w r l i"
  by (induction l arbitrary: r) (simp_all add: list_contribs_Nil list_contribs_Cons get_doc_id_identity)

lemma rrf_total_spec_score:
  "length ws = length ls \<Longrightarrow> rrf_total py k (zip ws ls) i = spec_score py k ws ls i"
proof (induction ws ls rule: list_induct2)
  case Nil show ?case by (simp add: rrf_total_def contributions_Nil)
next
  case (Cons w ws l ls)
  then show ?case
    by (simp add: rrf_total_def contributions_Cons list_contribs_score)
qed

lemma weighted_lists_Some: "weighted_lists ls (Some ws) = zip ws ls"
  by (simp add: weighted_lists_def)

lemma fuse_default_weights: "fuse py k ls None = fuse py k ls (Some (replicate (length ls) 1))"
  by (simp add: fuse_def weighted_lists_def)

lemma rrf_copy_update: "rrf_copy d s = d\<lparr>metadata := (metadata d)(''rrf_score'' \<mapsto> PFloat s)\<rparr>"
  by (simp add: rrf_copy_def)

lemma find_Some_member: "find P xs = Some x \<Longrightarrow> x \<in> set xs \<and> P x"
  by (induction xs) (auto split: if_splits)

lemma fuse_weighted:
  assumes k: "0 \<le> k" and len: "length ws = length ls"
  shows "\<exists>out. fuse py k ls (Some ws) = Inr out \<and>
     distinct (map (passage_identity py) out) \<and>
     set (map (passage_identity py) out) = set (map (passage_identity py) (concat ls)) \<and>
     (\<forall>d \<in> set out.
        rrf_score_of d = Some (spec_score py k ws ls (passage_identity py d)) \<and>
        (\<exists>d0 \<in> set (concat ls).
           passage_identity py d0 = passage_identity py d \<and>
           d = d0\<lparr>metadata := (metadata d0)(''rrf_score'' \<mapsto>
                   PFloat (spec_score py k ws ls (passage_identity py d)))\<rparr>))"
proof -
  have sc: "scanned (weighted_lists ls (Some ws)) = concat ls"
    using len by (simp add: scanned_weighted)
  have idf: "get_doc_id py = passage_identity py"
    by (rule ext) (rule get_doc_id_identity)
  have tot: "\<And>i. rrf_total py k (weighted_lists ls (Some ws)) i = spec_score py k ws ls i"
    by (simp add: weighted_lists_Some rrf_total_spec_score[OF len])
  from fuse_ids[OF k, of py ls "Some ws"] obtain out where
    o: "fuse py k ls (Some ws) = Inr out"
    and d: "distinct (map (passage_identity py) out)"
    and s: "set (map (passage_identity py) out) = set (map (passage_identity py) (concat ls))"
    and r: "\<forall>d \<in> set out. rrf_score_of d = Some (spec_score py k ws ls (passage_identity py d))"
    unfolding sc idf tot by blast
  from fuse_objects[OF k, of py ls "Some ws"] o have
    f: "\<forall>d \<in> set out. \<exists>d0.
          find (\<lambda>x. passage_identity py x = passage_identity py d) (concat ls) = Some d0 \<and>
          d = rrf_copy d0 (spec_score py k ws ls (passage_identity py d))"
    unfolding sc idf tot by simp
  have "\<forall>d \<in> set out.
        rrf_score_of d = Some (spec_score py k ws ls (passage_identity py d)) \<and>
        (\<exists>d0 \<in> set (concat ls).
           passage_identity py d0 = passage_identity py d \<and>
           d = d0\<lparr>metadata := (metadata d0)(''rrf_score'' \<mapsto>
                   PFloat (spec_score py k ws ls (passage_identity py d)))\<rparr>)"
  proof
    fix d assume m: "d \<in> set out"
    with f obtain d0 where
      fd: "find (\<lambda>x. passage_identity py x = passage_identity py d) (concat ls) = Some d0"
      and c: "d = rrf_copy d0 (spec_score py k ws ls (passage_identity py d))" by blast
    from find_Some_member[OF fd]
    have "d0 \<in> set (concat ls)" "passage_identity py d0 = passage_identity py d"
      by simp_all
    with c r m show "rrf_score_of d = Some (spec_score py k ws ls (passage_identity py d)) \<and>
        (\<exists>d0 \<in> set (concat ls).
           passage_identity py d0 = passage_identity py d \<and>
           d = d0\<lparr>metadata := (metadata d0)(''rrf_score'' \<mapsto>
                   PFloat (spec_score py k ws ls (passage_identity py d)))\<rparr>)"
      unfolding rrf_copy_update by blast
  qed
  with o d s show ?thesis by blast
qed

lemma fuse_same_twice_weighted:
  "fuse py 60 [[A], [A]] (Some [w1, w2]) =
     Inr [A\<lparr>metadata := (metadata A)(''rrf_score'' \<mapsto> PFloat (w1 / 61 + w2 / 61))\<rparr>]"
  by (simp add: fuse_def weighted_lists_def py_truediv_def keep_first_def sorted_desc_def Let_def
        rrf_copy_update)

lemma fuse_same_content:
  "metadata d1 ''id'' = None \<Longrightarrow> metadata d2 ''id'' = None \<Longrightarrow>
   page_content d1 = page_content d2 \<Longrightarrow>
   fuse py 60 [[d1], [d2]] None =
     Inr [d1\<lparr>metadata := (metadata d1)(''rrf_score'' \<mapsto> PFloat (2 / 61))\<rparr>]"
  by (simp add: fuse_def weighted_lists_def py_truediv_def keep_first_def sorted_desc_def Let_def
        rrf_copy_update get_doc_id_def)

lemma fuse_same_store_id:
  "metadata d1 ''id'' = Some v \<Longrightarrow> metadata d2 ''id'' = Some v \<Longrightarrow>
   fuse py 60 [[d1], [d2]] None =
     Inr [d1\<lparr>metadata := (metadata d1)(''rrf_score'' \<mapsto> PFloat (2 / 61))\<rparr>]"
  by (simp add: fuse_def weighted_lists_def py_truediv_def keep_first_def sorted_desc_def Let_def
        rrf_copy_update get_doc_id_def)

lemma fuse_two_identities:
  "passage_identity py d1 \<noteq> passage_identity py d2 \<Longrightarrow>
   \<exists>out. fuse py 60 [[d1, d2], [d2, d1]] None = Inr out \<and> length out = 2"
  using fuse_two_docs[of py d1 d2] by (simp add: get_doc_id_identity)

lemma sample_identities:
  "passage_identity py0 doc_p1 = ''##''" "passage_identity py0 doc_low = ''###''"
  by (simp_all add: passage_identity_def py0_def doc_p1_def doc_low_def numeral_2_eq_2 numeral_3_eq_3)

text \<open>
  C2. With a non-negative RRF constant and one weight per list, fusion returns a list in
  which every identity of the input passages occurs exactly once, the identity being the
  store's identifier or else a hash of the content. The fused score attached to a passage
  is the sum, over every list of weight \<open>w\<close> and every 1-based rank \<open>r\<close> at which a passage
  of that identity stands, of \<open>w / (k + r)\<close>, and the passage is otherwise an input
  passage of that identity, unchanged. Without weights every list has weight 1. Fusing
  \<open>[[A]]\<close> and \<open>[[A]]\<close> with weights 1 and \<open>k = 60\<close> gives A the score 2/61, with weights
  2 and 3 the score 5/61; fusing \<open>[[d1, d2], [d2, d1]]\<close> gives exactly two passages when
  d1 and d2 differ in identity; two passages without identifier and with equal content,
  or with the same identifier, are fused into one.
\<close>

theorem fuse_scores_and_dedup:
  assumes "0 \<le> k" and "length ws = length ls"
  shows "(\<exists>out. fuse py k ls (Some ws) = Inr out \<and>
            distinct (map (passage_identity py) out) \<and>
            set (map (passage_identity py) out) = set (map (passage_identity py) (concat ls)) \<and>
            (\<forall>d \<in> set out.
               rrf_score_of d = Some (spec_score py k ws ls (passage_identity py d)) \<and>
               (\<exists>d0 \<in> set (concat ls).
                  passage_identity py d0 = passage_identity py d \<and>
                  d = d0\<lparr>metadata := (metadata d0)(''rrf_score'' \<mapsto>
                          PFloat (spec_score py k ws ls (passage_identity py d)))\<rparr>))) \<and>
         fuse py k ls None = fuse py k ls (Some (replicate (length ls) 1)) \<and>
         fuse py 60 [[A], [A]] (Some [1, 1]) =
           Inr [A\<lparr>metadata := (metadata A)(''rrf_score'' \<mapsto> PFloat (2 / 61))\<rparr>] \<and>
         fuse py 60 [[A], [A]] None =
           Inr [A\<lparr>metadata := (metadata A)(''rrf_score'' \<mapsto> PFloat (2 / 61))\<rparr>] \<and>
         fuse py 60 [[A], [A]] (Some [2, 3]) =
           Inr [A\<lparr>metadata := (metadata A)(''rrf_score'' \<mapsto> PFloat (5 / 61))\<rparr>] \<and>
         (passage_identity py d1 \<noteq> passage_identity py d2 \<longrightarrow>
            (\<exists>out. fuse py 60 [[d1, d2], [d2, d1]] None = Inr out \<and> length out = 2)) \<and>
         (metadata d1 ''id'' = None \<and> metadata d2 ''id'' = None \<and>
          page_content d1 = page_content d2 \<longrightarrow>
            fuse py 60 [[d1], [d2]] None =
              Inr [d1\<lparr>metadata := (metadata d1)(''rrf_score'' \<mapsto> PFloat (2 / 61))\<rparr>]) \<and>
         (metadata d1 ''id'' = Some v \<and> metadata d2 ''id'' = Some v \<longrightarrow>
            fuse py 60 [[d1], [d2]] None =
              Inr [d1\<lparr>metadata := (metadata d1)(''rrf_score'' \<mapsto> PFloat (2 / 61))\<rparr>])"
proof (intro conjI)
  show "\<exists>out. fuse py k ls (Some ws) = Inr out \<and>
            distinct (map (passage_identity py) out) \<and>
            set (map (passage_identity py) out) = set (map (passage_identity py) (concat ls)) \<and>
            (\<forall>d \<in> set out.
               rrf_score_of d = Some (spec_score py k ws ls (passage_identity py d)) \<and>
               (\<exists>d0 \<in> set (concat ls).
                  passage_identity py d0 = passage_identity py d \<and>
                  d = d0\<lparr>metadata := (metadata d0)(''rrf_score'' \<mapsto>
                          PFloat (spec_score py k ws ls (passage_identity py d)))\<rparr>))"
    by (rule fuse_weighted[OF assms])
  show "fuse py k ls None = fuse py k ls (Some (replicate (length ls) 1))"
    by (rule fuse_default_weights)
  show "fuse py 60 [[A], [A]] (Some [1, 1]) =
           Inr [A\<lparr>metadata := (metadata A)(''rrf_score'' \<mapsto> PFloat (2 / 61))\<rparr>]"
    using fuse_same_twice_weighted[of py A 1 1] by simp
  show "fuse py 60 [[A], [A]] None =
           Inr [A\<lparr>metadata := (metadata A)(''rrf_score'' \<mapsto> PFloat (2 / 61))\<rparr>]"
    using fuse_same_twice_weighted[of py A 1 1] fuse_default_weights[of py 60 "[[A], [A]]"]
    by (simp add: numeral_2_eq_2)
  show "fuse py 60 [[A], [A]] (Some [2, 3]) =
           Inr [A\<lparr>metadata := (metadata A)(''rrf_score'' \<mapsto> PFloat (5 / 61))\<rparr>]"
    using fuse_same_twice_weighted[of py A 2 3] by simp
  show "passage_identity py d1 \<noteq> passage_identity py d2 \<longrightarrow>
            (\<exists>out. fuse py 60 [[d1, d2], [d2, d1]] None = Inr out \<and> length out = 2)"
    by (rule impI) (rule fuse_two_identities)
  show "metadata d1 ''id'' = None \<and> metadata d2 ''id'' = None \<and>
          page_content d1 = page_content d2 \<longrightarrow>
            fuse py 60 [[d1], [d2]] None =
              Inr [d1\<lparr>metadata := (metadata d1)(''rrf_score'' \<mapsto> PFloat (2 / 61))\<rparr>]"
    using fuse_same_content[of d1 d2 py] by blast
  show "metadata d1 ''id'' = Some v \<and> metadata d2 ''id'' = Some v \<longrightarrow>
            fuse py 60 [[d1], [d2]] None =
              Inr [d1\<lparr>metadata := (metadata d1)(''rrf_score'' \<mapsto> PFloat (2 / 61))\<rparr>]"
    using fuse_same_store_id[of d1 v d2 py] by blast
qed

theorem fuse_scores_and_dedup_witness:
  "(0::int) \<le> 60 \<and> length [2, 1 :: real] = length [[doc_p1, doc_low], [doc_low]] \<and>
   passage_identity py0 doc_p1 \<noteq> passage_identity py0 doc_low \<and>
   (\<exists>out. fuse py0 60 [[doc_p1, doc_low], [doc_low]] (Some [2, 1]) = Inr out \<and>
          distinct (map (passage_identity py0) out) \<and>
          set (map (passage_identity py0) out) = {''##'', ''###''}) \<and>
   (\<exists>out. fuse py0 60 [[doc_p1, doc_low], [doc_low, doc_p1]] None = Inr out \<and> length out = 2) \<and>
   fuse py0 60 [[docA], [docA]] (Some [2, 3]) =
     Inr [docA\<lparr>metadata := (metadata docA)(''rrf_score'' \<mapsto> PFloat (5 / 61))\<rparr>]"
proof -
  have k: "(0::int) \<le> 60" by simp
  have l: "length [2, 1 :: real] = length [[doc_p1, doc_low], [doc_low]]" by simp
  have ne: "passage_identity py0 doc_p1 \<noteq> passage_identity py0 doc_low"
    by (simp add: sample_identities)
  have sc: "set (map (passage_identity py0) (concat [[doc_p1, doc_low], [doc_low]]))
            = {''##'', ''###''}"
    by (simp add: sample_identities)
  note th = fuse_scores_and_dedup[OF k l, of py0 docA doc_p1 doc_low]
  from th obtain out where
    "fuse py0 60 [[doc_p1, doc_low], [doc_low]] (Some [2, 1]) = Inr out"
    "distinct (map (passage_identity py0) out)"
    "set (map (passage_identity py0) out) =
       set (map (passage_identity py0) (concat [[doc_p1, doc_low], [doc_low]]))"
    by blast
  then have 1: "\<exists>out. fuse py0 60 [[doc_p1, doc_low], [doc_low]] (Some [2, 1]) = Inr out \<and>
          distinct (map (passage_identity py0) out) \<and>
          set (map (passage_identity py0) out) = {''##'', ''###''}"
    unfolding sc by blast
  from th ne have 2:
    "\<exists>out. fuse py0 60 [[doc_p1, doc_low], [doc_low, doc_p1]] None = Inr out \<and> length out = 2"
    by blast
  from th have 3: "fuse py0 60 [[docA], [docA]] (Some [2, 3]) =
     Inr [docA\<lparr>metadata := (metadata docA)(''rrf_score'' \<mapsto> PFloat (5 / 61))\<rparr>]"
    by blast
  from k l ne 1 2 3 show ?thesis by (intro conjI)
qed

text \<open>
  C3. With a non-negative RRF constant, the fused list is sorted by descending fused score;
  for every score value the passages that carry it appear in the order in which their
  identities were first met while scanning the lists left to right; and every output
  passage is the first scanned passage of its identity, with the fused score added to its
  metadata. Being a function of its inputs, fusion gives the same list for the same
  inputs. Fusing \<open>[[A, B], [B, A]]\<close> with equal weights puts A before B.
\<close>

theorem fuse_order_and_ties:
  assumes "0 \<le> k"
  shows "(\<exists>out scores. fuse py k ls ws = Inr out \<and>
            map rrf_score_of out = map Some scores \<and>
            sorted_wrt (\<lambda>a b. a \<ge> b) scores \<and>
            (\<forall>s. map (get_doc_id py) (filter (\<lambda>d. rrf_score_of d = Some s) out) =
                 filter (\<lambda>i. rrf_total py k (weighted_lists ls ws) i = s)
                        (first_seen (map (get_doc_id py) (scanned (weighted_lists ls ws))))) \<and>
            (\<forall>d \<in> set out. \<exists>d0.
                 find (\<lambda>x. get_doc_id py x = get_doc_id py d) (scanned (weighted_lists ls ws))
                   = Some d0 \<and>
                 d = rrf_copy d0 (rrf_total py k (weighted_lists ls ws) (get_doc_id py d)))) \<and>
         (get_doc_id py A \<noteq> get_doc_id py B \<longrightarrow>
            fuse py 60 [[A, B], [B, A]] None =
              Inr [rrf_copy A (1 / 61 + 1 / 62), rrf_copy B (1 / 62 + 1 / 61)])"
proof -
  from fuse_sorted[OF assms, of py ls ws] obtain out scores where
    o: "fuse py k ls ws = Inr out" and s: "map rrf_score_of out = map Some scores"
    and d: "sorted_wrt (\<lambda>a b. a \<ge> b) scores" by blast
  from fuse_ties[OF assms, of py ls ws] o have
    t: "\<forall>s. map (get_doc_id py) (filter (\<lambda>d. rrf_score_of d = Some s) out) =
           filter (\<lambda>i. rrf_total py k (weighted_lists ls ws) i = s)
                  (first_seen (map (get_doc_id py) (scanned (weighted_lists ls ws))))"
    by simp
  from fuse_objects[OF assms, of py ls ws] o have
    f: "\<forall>d \<in> set out. \<exists>d0.
          find (\<lambda>x. get_doc_id py x = get_doc_id py d) (scanned (weighted_lists ls ws)) = Some d0 \<and>
          d = rrf_copy d0 (rrf_total py k (weighted_lists ls ws) (get_doc_id py d))"
    by simp
  have "\<exists>out scores. fuse py k ls ws = Inr out \<and>
            map rrf_score_of out = map Some scores \<and>
            sorted_wrt (\<lambda>a b. a \<ge> b) scores \<and>
            (\<forall>s. map (get_doc_id py) (filter (\<lambda>d. rrf_score_of d = Some s) out) =
                 filter (\<lambda>i. rrf_total py k (weighted_lists ls ws) i = s)
                        (first_seen (map (get_doc_id py) (scanned (weighted_lists ls ws))))) \<and>
            (\<forall>d \<in> set out. \<exists>d0.
                 find (\<lambda>x. get_doc_id py x = get_doc_id py d) (scanned (weighted_lists ls ws))
                   = Some d0 \<and>
                 d = rrf_copy d0 (rrf_total py k (weighted_lists ls ws) (get_doc_id py d)))"
    using o s d t f by (intro exI conjI)
  moreover have "get_doc_id py A \<noteq> get_doc_id py B \<longrightarrow>
            fuse py 60 [[A, B], [B, A]] None =
              Inr [rrf_copy A (1 / 61 + 1 / 62), rrf_copy B (1 / 62 + 1 / 61)]"
    by (rule impI) (rule fuse_tie_example)
  ultimately show ?thesis by (rule conjI)
qed

theorem fuse_order_and_ties_witness:
  "(0::int) \<le> 60 \<and> get_doc_id py0 docA \<noteq> get_doc_id py0 docB \<and>
   fuse py0 60 [[docA, docB], [docB, docA]] None =
     Inr [rrf_copy docA (1 / 61 + 1 / 62), rrf_copy docB (1 / 62 + 1 / 61)] \<and>
   (\<exists>out scores. fuse py0 60 [[docB], [docA, docB]] None = Inr out \<and>
      map rrf_score_of out = map Some scores \<and> sorted_wrt (\<lambda>a b. a \<ge> b) scores)"
proof -
  have k: "(0::int) \<le> 60" by simp
  have ne: "get_doc_id py0 docA \<noteq> get_doc_id py0 docB" by (simp add: sample_ids)
  note th = fuse_order_and_ties[OF k, of py0 "[[docB], [docA, docB]]" None docA docB]
  from th ne have "fuse py0 60 [[docA, docB], [docB, docA]] None =
     Inr [rrf_copy docA (1 / 61 + 1 / 62), rrf_copy docB (1 / 62 + 1 / 61)]" by blast
  moreover from th obtain out scores where "fuse py0 60 [[docB], [docA, docB]] None = Inr out"
    "map rrf_score_of out = map Some scores" "sorted_wrt (\<lambda>a b. a \<ge> b) scores" by blast
  then have "\<exists>out scores. fuse py0 60 [[docB], [docA, docB]] None = Inr out \<and>
      map rrf_score_of out = map Some scores \<and> sorted_wrt (\<lambda>a b. a \<ge> b) scores" by blast
  ultimately show ?thesis using k ne by (intro conjI)
qed

subsection \<open>Threshold filter\<close>



lemma filter_loop_sublist:
  "filter_loop t docs = Inr out \<Longrightarrow> length out \<le> length docs \<and> set out \<subseteq> set docs"
proof (induction docs arbitrary: out)
  case Nil then show ?case by simp
next
  case (Cons d docs)
  then show ?case by (fastforce split: sum.splits if_splits)
qed


lemma filter_by_threshold_length:
  "filter_by_threshold st docs = Inr out \<Longrightarrow> length out \<le> length docs"
  by (auto simp: filter_by_threshold_def split: sum.splits if_splits dest: filter_loop_sublist)





subsection \<open>HyDE failure policy\<close>



lemma generate_hypotheses_nonempty: "generate_hypotheses invoke n query \<noteq> []"
  by (simp add: generate_hypotheses_def Let_def)




subsection \<open>Reranker\<close>

lemma py_take_map: "py_take n (map f xs) = map f (py_take n xs)"
  by (simp add: py_take_def take_map)

lemma py_take_nonneg: "0 \<le> n \<Longrightarrow> py_take n xs = take (nat n) xs"
  by (simp add: py_take_def)

lemma length_py_take: "0 \<le> n \<Longrightarrow> int (length (py_take n xs)) \<le> n"
  by (simp add: py_take_def)

lemma mset_sorted_desc: "mset (sorted_desc items) = mset items"
  by (simp add: sorted_desc_def)

lemma sorted_desc_pairs: "sorted_wrt (\<lambda>a b. snd a \<ge> snd b) (sorted_desc items)"
  using sorted_desc_scores[of items] by (simp add: sorted_wrt_map)

lemma rerank_score_of_copy: "rerank_score_of (rerank_copy d s) = Some s"
  by (simp add: rerank_score_of_def rerank_copy_def)

lemma rerank_unavailable: "rerank None query docs top_k = py_take top_k docs"
  by (simp add: rerank_def)

lemma rerank_scoring_error:
  "predict (map (\<lambda>d. (query, page_content d)) docs) = Inl e \<Longrightarrow>
   rerank (Some predict) query docs top_k = py_take top_k docs"
  by (simp add: rerank_def)

lemma rerank_scored:
  "predict (map (\<lambda>d. (query, page_content d)) docs) = Inr scores \<Longrightarrow>
   length scores = length docs \<Longrightarrow>
   rerank (Some predict) query docs top_k =
     map (\<lambda>(d, s). rerank_copy d s) (py_take top_k (sorted_desc (zip docs scores)))"
  by (cases "docs = []") (simp_all add: rerank_def sorted_desc_def py_take_def)

lemma rerank_copy_update:
  "rerank_copy d s = d\<lparr>metadata := (metadata d)(''rerank_score'' \<mapsto> PFloat s)\<rparr>"
  by (simp add: rerank_copy_def)

text \<open>
  C6. Reranking is fail-open. When the cross-encoder is unavailable or the scoring call
  raises, \<open>rerank\<close> returns the slice \<^verbatim>\<open>documents[:top_k]\<close>, which for a non-negative
  \<open>top_k\<close> is the first \<open>top_k\<close> candidates in their original order. When scoring succeeds
  with one score per candidate, the result is the first \<open>top_k\<close> of the candidates
  rearranged by descending score, each with its content, address and metadata unchanged
  but for the entry \<open>rerank_score\<close>, which is set to its score.
\<close>

theorem rerank_fail_open:
  "((model = None \<or>
     (\<exists>predict e. model = Some predict \<and>
         predict (map (\<lambda>d. (query, page_content d)) docs) = Inl e)) \<longrightarrow>
      rerank model query docs top_k = py_take top_k docs \<and>
      (0 \<le> top_k \<longrightarrow> rerank model query docs top_k = take (nat top_k) docs)) \<and>
   (\<forall>predict scores.
      model = Some predict \<and>
      predict (map (\<lambda>d. (query, page_content d)) docs) = Inr scores \<and>
      length scores = length docs \<longrightarrow>
      (\<exists>ranked. mset ranked = mset (zip docs scores) \<and>
         sorted_wrt (\<lambda>a b. snd a \<ge> snd b) ranked \<and>
         rerank model query docs top_k =
           map (\<lambda>(d, s). d\<lparr>metadata := (metadata d)(''rerank_score'' \<mapsto> PFloat s)\<rparr>)
               (py_take top_k ranked) \<and>
         map rerank_score_of (rerank model query docs top_k) =
           map Some (py_take top_k (map snd ranked))))"
proof (intro conjI impI allI)
  assume a: "model = None \<or>
     (\<exists>predict e. model = Some predict \<and>
         predict (map (\<lambda>d. (query, page_content d)) docs) = Inl e)"
  then show r: "rerank model query docs top_k = py_take top_k docs"
    using rerank_unavailable rerank_scoring_error by blast
  assume "0 \<le> top_k"
  then show "rerank model query docs top_k = take (nat top_k) docs"
    using r by (simp add: py_take_nonneg)
next
  fix predict scores
  assume a: "model = Some predict \<and>
      predict (map (\<lambda>d. (query, page_content d)) docs) = Inr scores \<and>
      length scores = length docs"
  let ?ranked = "sorted_desc (zip docs scores)"
  have r: "rerank model query docs top_k =
           map (\<lambda>(d, s). rerank_copy d s) (py_take top_k ?ranked)"
    using a rerank_scored by simp
  have u: "rerank model query docs top_k =
           map (\<lambda>(d, s). d\<lparr>metadata := (metadata d)(''rerank_score'' \<mapsto> PFloat s)\<rparr>)
               (py_take top_k ?ranked)"
    unfolding r rerank_copy_update by (rule refl)
  have "map rerank_score_of (map (\<lambda>(d, s). rerank_copy d s) (py_take top_k ?ranked)) =
        map Some (map snd (py_take top_k ?ranked))"
    by (simp add: comp_def case_prod_unfold rerank_score_of_copy)
  then have s: "map rerank_score_of (rerank model query docs top_k) =
           map Some (py_take top_k (map snd ?ranked))"
    by (simp only: r py_take_map)
  show "\<exists>ranked. mset ranked = mset (zip docs scores) \<and>
         sorted_wrt (\<lambda>a b. snd a \<ge> snd b) ranked \<and>
         rerank model query docs top_k =
           map (\<lambda>(d, s). d\<lparr>metadata := (metadata d)(''rerank_score'' \<mapsto> PFloat s)\<rparr>)
               (py_take top_k ranked) \<and>
         map rerank_score_of (rerank model query docs top_k) =
           map Some (py_take top_k (map snd ranked))"
    using mset_sorted_desc[of "zip docs scores"] sorted_desc_pairs[of "zip docs scores"] u s
    by (intro exI[of _ ?ranked] conjI)
qed

theorem rerank_fail_open_witness:
  "rerank None ''q'' [doc_p1, doc_p2, docA, docB] 2 = [doc_p1, doc_p2] \<and>
   rerank (Some predict_fails) ''q'' [doc_p1, doc_p2, docA, docB] 2 = [doc_p1, doc_p2] \<and>
   rerank (Some predict_length) ''q'' [docB, docA] 1 =
     [docA\<lparr>metadata := (metadata docA)(''rerank_score'' \<mapsto> PFloat 5)\<rparr>]"
proof -
  let ?ds = "[doc_p1, doc_p2, docA, docB]"
  note t1 = rerank_fail_open[of None "''q''" ?ds 2]
  note t2 = rerank_fail_open[of "Some predict_fails" "''q''" ?ds 2]
  note t3 = rerank_fail_open[of "Some predict_length" "''q''" "[docB, docA]" 1]
  have tk: "take (nat 2) ?ds = [doc_p1, doc_p2]" by (simp add: numeral_2_eq_2)
  have "rerank None ''q'' ?ds 2 = take (nat 2) ?ds"
    by (rule t1[THEN conjunct1, THEN mp, OF disjI1[OF refl], THEN conjunct2, THEN mp]) simp
  then have 1: "rerank None ''q'' ?ds 2 = [doc_p1, doc_p2]" by (simp only: tk)
  have f: "\<exists>predict e. Some predict_fails = Some predict \<and>
         predict (map (\<lambda>d. (''q'', page_content d)) ?ds) = Inl e"
    by (simp add: predict_fails_def)
  have "rerank (Some predict_fails) ''q'' ?ds 2 = take (nat 2) ?ds"
    by (rule t2[THEN conjunct1, THEN mp, OF disjI2[OF f], THEN conjunct2, THEN mp]) simp
  then have 2: "rerank (Some predict_fails) ''q'' ?ds 2 = [doc_p1, doc_p2]" by (simp only: tk)
  have p: "predict_length (map (\<lambda>d. (''q'', page_content d)) [docB, docA]) = Inr [4, 5]"
    by (simp add: predict_length_def docA_def docB_def)
  from t3 p obtain ranked where m: "mset ranked = mset (zip [docB, docA] [4, 5 :: real])"
    and s: "sorted_wrt (\<lambda>a b. snd a \<ge> snd b) ranked"
    and r: "rerank (Some predict_length) ''q'' [docB, docA] 1 =
           map (\<lambda>(d, s). d\<lparr>metadata := (metadata d)(''rerank_score'' \<mapsto> PFloat s)\<rparr>)
               (py_take 1 ranked)"
    by auto
  from m have "length ranked = 2" using mset_eq_length by fastforce
  then obtain x y where xy: "ranked = [x, y]"
    by (metis (no_types, opaque_lifting) length_0_conv length_Suc_conv numeral_2_eq_2)
  from m xy have "{x, y} = {(docB, 4), (docA, 5)}"
    using mset_eq_setD by fastforce
  with s xy have "x = (docA, 5)" by (auto simp: doubleton_eq_iff)
  with r xy have 3: "rerank (Some predict_length) ''q'' [docB, docA] 1 =
     [docA\<lparr>metadata := (metadata docA)(''rerank_score'' \<mapsto> PFloat 5)\<rparr>]"
    by (simp add: py_take_def)
  from 1 2 3 show ?thesis by (intro conjI)
qed

subsection \<open>Hybrid combiner\<close>

lemma normalize_vector_sample:
  "normalize_scores [(docA, 9 / 10), (docB, 5 / 10)] = [(docA, 1), (docB, 0)]"
  by (simp add: normalize_scores_def Let_def)

lemma normalize_keyword_sample:
  "normalize_scores [(d, 1), (docC, 5 / 10)] = [(d, 1), (docC, 0)]"
  by (simp add: normalize_scores_def Let_def)

lemma sample_content_ids:
  "content_id docA = 1" "content_id docB = 2" "content_id docB_again = 7" "content_id docC = 8"
  by (simp_all add: docA_def docB_def docB_again_def docC_def)

lemma combine_results_shared_object:
  "combine_results [(docA, 9 / 10), (docB, 5 / 10)] [(docB, 1), (docC, 5 / 10)] (7 / 10) (3 / 10)
     = [docA, docB, docC]"
proof -
  have d: "add_keyword [(docB, 1), (docC, 0)] (add_vector [(docA, 1), (docB, 0)] []) =
           [(1, docA, 1, 0), (2, docB, 0, 1), (8, docC, 0, 0)]"
    by (simp add: sample_content_ids)
  show ?thesis
    unfolding combine_results_def normalize_vector_sample normalize_keyword_sample Let_def d
    by (simp add: sorted_desc_def)
qed

text \<open>
  C7. The combiner keys its dictionary by \<^verbatim>\<open>id(doc.page_content)\<close>, the address of the
  content string, where the sibling code paths use a hash of the content. On the specification's
  own example, with passage B delivered by the keyword search as a separate object of equal
  content, B is not merged: the result has four passages, B twice, with the keyword copy
  (combined score 0.3) before the vector copy (combined score 0).
\<close>

theorem combine_results_separate_objects:
  "combine_results [(docA, 9 / 10), (docB, 5 / 10)] [(docB_again, 1), (docC, 5 / 10)]
       (7 / 10) (3 / 10)
     = [docA, docB_again, docB, docC] \<and>
   page_content docB_again = page_content docB \<and> metadata docB_again = metadata docB"
proof -
  have d: "add_keyword [(docB_again, 1), (docC, 0)] (add_vector [(docA, 1), (docB, 0)] []) =
           [(1, docA, 1, 0), (2, docB, 0, 0), (7, docB_again, 0, 1), (8, docC, 0, 0)]"
    by (simp add: sample_content_ids)
  have "combine_results [(docA, 9 / 10), (docB, 5 / 10)] [(docB_again, 1), (docC, 5 / 10)]
       (7 / 10) (3 / 10) = [docA, docB_again, docB, docC]"
    unfolding combine_results_def normalize_vector_sample normalize_keyword_sample Let_def d
    by (simp add: sorted_desc_def)
  moreover have "page_content docB_again = page_content docB \<and> metadata docB_again = metadata docB"
    by (simp add: docB_def docB_again_def)
  ultimately show ?thesis by (rule conjI)
qed

subsection \<open>The pipeline never raises\<close>

lemma similarity_search_total: "\<exists>docs. similarity_search vs query k filters t = Inr docs"
  by (auto simp: similarity_search_def try_except_def bind_exn_def split: sum.splits option.splits)

lemma similarity_search_plain:
  "similarity_search vs query k filters None =
     (case inner_search vs query k filters of Inl e \<Rightarrow> Inr [] | Inr results \<Rightarrow> Inr results)"
  by (simp add: similarity_search_def try_except_def bind_exn_def split: sum.splits)

lemma simple_retrieve_total: "\<exists>docs. simple_retrieve c query k filters = Inr docs"
  by (simp add: simple_retrieve_def similarity_search_total)

text \<open>
  C8. \<open>retrieve\<close> never raises: for every query, configuration, collaborator behaviour
  and strategy it returns a list. When the body of its \<^verbatim>\<open>try\<close> raises, the result is the
  bare vector search for the query with the requested final size, which is the store's
  answer, or the empty list when the store raises.
\<close>

theorem retrieve_never_raises:
  "(\<exists>docs. retrieve fl st c query top_k filters strategy = Inr docs) \<and>
   (\<forall>e. retrieve_body fl st c query (final_k st top_k) filters strategy = Inl e \<longrightarrow>
        retrieve fl st c query top_k filters strategy =
          simple_retrieve c query (final_k st top_k) filters \<and>
        simple_retrieve c query (final_k st top_k) filters =
          (case inner_search (vector_store c) query (final_k st top_k) filters of
             Inl e' \<Rightarrow> Inr [] | Inr results \<Rightarrow> Inr results))"
proof (intro conjI allI impI)
  show "\<exists>docs. retrieve fl st c query top_k filters strategy = Inr docs"
    using simple_retrieve_total[of c query "final_k st top_k" filters]
    by (auto simp: retrieve_def try_except_def split: sum.splits)
next
  fix e assume "retrieve_body fl st c query (final_k st top_k) filters strategy = Inl e"
  then show "retrieve fl st c query top_k filters strategy =
          simple_retrieve c query (final_k st top_k) filters"
    by (simp add: retrieve_def try_except_def)
next
  show "simple_retrieve c query (final_k st top_k) filters =
          (case inner_search (vector_store c) query (final_k st top_k) filters of
             Inl e' \<Rightarrow> Inr [] | Inr results \<Rightarrow> Inr results)"
    by (simp add: simple_retrieve_def similarity_search_plain)
qed

lemma body_raises_sample:
  "retrieve_body flags_off st0 (collaborators_of store_three) ''q'' 2 None ''simple'' = Inl TypeError"
proof -
  have s: "simple_retrieve (collaborators_of store_three) ''q'' (top_k_retrieval st0) None
           = Inr [doc_bad, doc_bad, doc_bad]"
    by (simp add: simple_retrieve_def similarity_search_plain collaborators_of_def store_three_def)
  have t: "py_take 2 [doc_bad, doc_bad, doc_bad] = [doc_bad, doc_bad]"
    by (simp add: py_take_def numeral_2_eq_2)
  have f: "filter_by_threshold st0 [doc_bad, doc_bad] = Inl TypeError"
    by (simp add: filter_by_threshold_def score_or_default_def doc_bad_def)
  have th: "similarity_threshold st0 > 0" by (simp add: st0_def)
  show ?thesis
    unfolding retrieve_body_def Let_def
    by (simp add: s bind_exn_def flags_off_def t f th)
qed

theorem retrieve_never_raises_witness:
  "retrieve_body flags_off st0 (collaborators_of store_three) ''q'' (final_k st0 (Some 2)) None ''simple''
     = Inl TypeError \<and>
   retrieve flags_off st0 (collaborators_of store_three) ''q'' (Some 2) None ''simple''
     = Inr [doc_bad, doc_bad, doc_bad]"
proof -
  have k: "final_k st0 (Some 2) = 2" by (simp add: final_k_def)
  have b: "retrieve_body flags_off st0 (collaborators_of store_three) ''q'' (final_k st0 (Some 2))
             None ''simple'' = Inl TypeError"
    by (simp only: k body_raises_sample)
  note th = retrieve_never_raises[of flags_off st0 "collaborators_of store_three" "''q''"
              "Some 2" None "''simple''"]
  from th b have "retrieve flags_off st0 (collaborators_of store_three) ''q'' (Some 2) None ''simple''
      = (case inner_search (vector_store (collaborators_of store_three)) ''q''
                (final_k st0 (Some 2)) None of
             Inl e' \<Rightarrow> Inr [] | Inr results \<Rightarrow> Inr results)"
    by simp
  then have "retrieve flags_off st0 (collaborators_of store_three) ''q'' (Some 2) None ''simple''
     = Inr [doc_bad, doc_bad, doc_bad]"
    by (simp add: collaborators_of_def store_three_def)
  with b show ?thesis by (rule conjI)
qed

subsection \<open>The length of the result\<close>

lemma length_rerank: "0 \<le> n \<Longrightarrow> int (length (rerank model query docs n)) \<le> n"
  by (auto simp: rerank_def length_py_take split: option.splits sum.splits)

lemma retrieve_body_length:
  assumes "0 \<le> n" and "retrieve_body fl st c query n filters strategy = Inr out"
  shows "int (length out) \<le> n"
proof -
  from assms(2) obtain documents where
    o: "(if similarity_threshold st > 0
         then filter_by_threshold st
                (if enable_reranking fl \<and> documents \<noteq> []
                 then rerank (reranker_model c) query documents n else py_take n documents)
         else Inr (if enable_reranking fl \<and> documents \<noteq> []
                   then rerank (reranker_model c) query documents n else py_take n documents))
        = Inr out"
    unfolding retrieve_body_def Let_def bind_exn_def by (auto split: sum.splits)
  let ?d = "if enable_reranking fl \<and> documents \<noteq> []
            then rerank (reranker_model c) query documents n else py_take n documents"
  have l: "int (length ?d) \<le> n"
    using assms(1) by (simp add: length_rerank length_py_take)
  show ?thesis
  proof (cases "similarity_threshold st > 0")
    case True
    with o have "filter_by_threshold st ?d = Inr out" by simp
    from filter_by_threshold_length[OF this] l show ?thesis by linarith
  next
    case False
    with o l show ?thesis by auto
  qed
qed

lemma retrieve_sample_overlong:
  "retrieve flags_off st0 (collaborators_of store_three) ''q'' (Some 2) None ''simple''
     = Inr [doc_bad, doc_bad, doc_bad]"
proof -
  have k: "final_k st0 (Some 2) = 2" by (simp add: final_k_def)
  have f: "simple_retrieve (collaborators_of store_three) ''q'' 2 None
           = Inr [doc_bad, doc_bad, doc_bad]"
    by (simp add: simple_retrieve_def similarity_search_plain collaborators_of_def store_three_def)
  show ?thesis
    unfolding retrieve_def k body_raises_sample try_except_def by (simp add: f)
qed

lemma retrieve_sample_negative:
  "retrieve flags_off st0 (collaborators_of store_honest) ''q'' (Some (- 1)) None ''simple''
     = Inr [docA, docB]"
proof -
  have k: "final_k st0 (Some (- 1)) = - 1" by (simp add: final_k_def)
  have s: "simple_retrieve (collaborators_of store_honest) ''q'' (top_k_retrieval st0) None
           = Inr [docA, docB, docC]"
    by (simp add: simple_retrieve_def similarity_search_plain collaborators_of_def
          store_honest_def st0_def)
  have t: "py_take (- 1) [docA, docB, docC] = [docA, docB]"
    by (simp add: py_take_def numeral_2_eq_2)
  have f: "filter_by_threshold st0 [docA, docB] = Inr [docA, docB]"
    by (simp add: filter_by_threshold_def score_or_default_def docA_def docB_def st0_def)
  have th: "similarity_threshold st0 > 0" by (simp add: st0_def)
  have "retrieve_body flags_off st0 (collaborators_of store_honest) ''q'' (- 1) None ''simple''
        = Inr [docA, docB]"
    unfolding retrieve_body_def Let_def
    by (simp add: s bind_exn_def flags_off_def t f th)
  then show ?thesis by (simp add: retrieve_def k try_except_def)
qed

text \<open>
  The bound fails in two ways. With a store that answers every search with three passages
  and a passage whose \<open>score\<close> entry is a string, the threshold filter raises, and the
  fallback returns the store's three passages unsliced although two were requested. With a
  negative \<open>top_k\<close> the slice \<^verbatim>\<open>documents[:top_k]\<close> drops passages from the end, and the
  list returned is longer than the negative size requested.
\<close>

theorem retrieve_length_counterexample:
  "retrieve flags_off st0 (collaborators_of store_three) ''q'' (Some 2) None ''simple''
     = Inr [doc_bad, doc_bad, doc_bad] \<and>
   final_k st0 (Some 2) = 2 \<and>
   retrieve flags_off st0 (collaborators_of store_honest) ''q'' (Some (- 1)) None ''simple''
     = Inr [docA, docB] \<and>
   final_k st0 (Some (- 1)) = - 1"
  using retrieve_sample_overlong retrieve_sample_negative by (simp add: final_k_def)

text \<open>
  C9, amended. For a non-negative final size \<open>final_k\<close> (the requested \<open>top_k\<close>, or the
  configured final size when \<open>top_k\<close> is absent or 0): whenever the body of \<open>retrieve\<close>
  completes, under every strategy and with reranking enabled or disabled, the returned list
  has at most \<open>final_k\<close> passages, whatever the collaborators do; and if moreover the
  store's similarity search returns at most \<open>final_k\<close> passages when asked for \<open>final_k\<close>,
  then the list \<open>retrieve\<close> returns has at most \<open>final_k\<close> passages on every path, the
  exception fallback included.
\<close>

theorem retrieve_length_bound:
  assumes "0 \<le> final_k st top_k"
  shows "(\<forall>out. retrieve_body fl st c query (final_k st top_k) filters strategy = Inr out \<longrightarrow>
            retrieve fl st c query top_k filters strategy = Inr out \<and>
            int (length out) \<le> final_k st top_k) \<and>
         ((\<forall>docs. inner_search (vector_store c) query (final_k st top_k) filters = Inr docs \<longrightarrow>
              int (length docs) \<le> final_k st top_k) \<longrightarrow>
          (\<exists>out. retrieve fl st c query top_k filters strategy = Inr out \<and>
                 int (length out) \<le> final_k st top_k))"
proof (intro conjI allI impI)
  fix out assume b: "retrieve_body fl st c query (final_k st top_k) filters strategy = Inr out"
  then show "retrieve fl st c query top_k filters strategy = Inr out"
    by (simp add: retrieve_def try_except_def)
  from retrieve_body_length[OF assms b] show "int (length out) \<le> final_k st top_k" .
next
  assume h: "\<forall>docs. inner_search (vector_store c) query (final_k st top_k) filters = Inr docs \<longrightarrow>
              int (length docs) \<le> final_k st top_k"
  show "\<exists>out. retrieve fl st c query top_k filters strategy = Inr out \<and>
                 int (length out) \<le> final_k st top_k"
  proof (cases "retrieve_body fl st c query (final_k st top_k) filters strategy")
    case (Inr out)
    then have "retrieve fl st c query top_k filters strategy = Inr out"
      by (simp add: retrieve_def try_except_def)
    with retrieve_body_length[OF assms Inr] show ?thesis by simp
  next
    case (Inl e)
    then have r: "retrieve fl st c query top_k filters strategy =
                  simple_retrieve c query (final_k st top_k) filters"
      by (simp add: retrieve_def try_except_def)
    show ?thesis
    proof (cases "inner_search (vector_store c) query (final_k st top_k) filters")
      case (Inl e')
      then show ?thesis using r assms
        by (simp add: simple_retrieve_def similarity_search_plain)
    next
      case (Inr docs)
      then show ?thesis using r h
        by (simp add: simple_retrieve_def similarity_search_plain)
    qed
  qed
qed

theorem retrieve_length_bound_witness:
  "0 \<le> final_k st0 (Some 2) \<and>
   (\<exists>out. retrieve flags_off st0 (collaborators_of store_honest) ''q'' (Some 2) None ''simple''
            = Inr out \<and> int (length out) \<le> final_k st0 (Some 2))"
proof -
  have k: "0 \<le> final_k st0 (Some 2)" by (simp add: final_k_def)
  have h: "\<forall>docs. inner_search (vector_store (collaborators_of store_honest)) ''q''
                    (final_k st0 (Some 2)) None = Inr docs \<longrightarrow>
                  int (length docs) \<le> final_k st0 (Some 2)"
    by (auto simp: collaborators_of_def store_honest_def final_k_def)
  from retrieve_length_bound[OF k, of flags_off "collaborators_of store_honest" "''q''" None "''simple''"] h
  have "\<exists>out. retrieve flags_off st0 (collaborators_of store_honest) ''q'' (Some 2) None ''simple''
            = Inr out \<and> int (length out) \<le> final_k st0 (Some 2)"
    by blast
  with k show ?thesis by (rule conjI)
qed

end
